theory Spec2Isabelle
  imports Complex_Main
begin

section \<open>The application workflow of AICTE Setu (server routes)\<close>

text \<open>
  The server's route handlers (\<^verbatim>\<open>registerRoutes\<close>) read and write a PostgreSQL store
  through an ORM. The store is modelled as a record of tables, each table a list of rows
  in insertion order. A handler is a function from the store to a response and the store
  it leaves behind; a response is either an HTTP error or the JSON payload.

  The table declarations and the request validators (\<^verbatim>\<open>shared/schema\<close>) are not among
  the sources. Rows therefore carry the columns that the handlers read or write, the
  outcome of \<^verbatim>\<open>schema.safeParse(req.body)\<close> is an argument of each handler, and the
  constraints that the store checks on an insert are a parameter (\<open>constraints\<close>).
\<close>

subsection \<open>Data model\<close>

type_synonym ident = string

text \<open>An instant is a JavaScript \<^verbatim>\<open>Date\<close>: milliseconds since the epoch.\<close>

type_synonym timestamp = int

text \<open>
  The sources name seven members of the enum \<^verbatim>\<open>application_status\<close>; the project notes
  speak of eleven. \<open>OtherStatus\<close> stands for the members that the sources do not name.
\<close>

datatype application_status =
    Draft | Submitted | Scrutiny | DocumentVerification | UnderEvaluation
  | Approved | Rejected | OtherStatus string

datatype application_type = NewInstitution | IntakeIncrease | NewCourse | Eoa | LocationChange

datatype stage_status = Pending | Current | Completed

datatype priority = Low | Medium | High

record institution =
  instId :: ident
  instUserId :: ident
  instName :: string
  instAddress :: string
  instState :: string

record application =
  appId :: ident
  appInstitutionId :: ident
  applicationNumber :: string
  applicationType :: application_type
  appStatus :: application_status
  institutionName :: string
  address :: string
  state :: string
  courseName :: "string option"
  intake :: "int option"
  description :: "string option"
  submittedAt :: "timestamp option"
  updatedAt :: "timestamp option"

text \<open>The status of a document is a text column, compared with string literals.\<close>

record document =
  docApplicationId :: ident
  docCategory :: string
  docStatus :: string

record timelineStage =
  tsApplicationId :: ident
  tsTitle :: string
  tsDescription :: string
  tsStatus :: stage_status
  tsAssignedTo :: "string option"
  tsCompletedAt :: "timestamp option"

record evaluatorAssignment =
  eaId :: ident
  eaApplicationId :: ident
  eaEvaluatorId :: ident
  eaPriority :: priority
  eaDeadline :: "timestamp option"
  eaCompletedAt :: "timestamp option"

record evaluation =
  evId :: ident
  evAssignmentId :: ident
  evApplicationId :: ident
  evEvaluatorId :: ident
  evScore :: int
  evComments :: "string option"
  evRecommendation :: string
  evSiteVisitNotes :: "string option"

record db =
  institutions :: "institution list"
  applications :: "application list"
  documents :: "document list"
  timelineStages :: "timelineStage list"
  evaluatorAssignments :: "evaluatorAssignment list"
  evaluations :: "evaluation list"

definition emptyDb :: db where
  "emptyDb = \<lparr>institutions = [], applications = [], documents = [], timelineStages = [],
     evaluatorAssignments = [], evaluations = []\<rparr>"

text \<open>
  The constraints that the store checks when a row is inserted (foreign keys, unique
  columns) are declared in \<^verbatim>\<open>shared/schema\<close>. Each is a predicate on the store and the
  new row; an insert that violates one throws, and the handler's \<^verbatim>\<open>catch\<close> answers 500.
\<close>

record constraints =
  okApplication :: "db \<Rightarrow> application \<Rightarrow> bool"
  okAssignment :: "db \<Rightarrow> evaluatorAssignment \<Rightarrow> bool"
  okEvaluation :: "db \<Rightarrow> evaluation \<Rightarrow> bool"

text \<open>The handlers' error responses, by HTTP status, with the message of the JSON body.\<close>

datatype error =
    ValidationError string   \<comment> \<open>400\<close>
  | Unauthorized string      \<comment> \<open>401\<close>
  | Forbidden string         \<comment> \<open>403\<close>
  | NotFound string          \<comment> \<open>404\<close>
  | InternalError string     \<comment> \<open>500\<close>

type_synonym 'a response = "(error + 'a) \<times> db"

subsection \<open>Store primitives\<close>

text \<open>
  \<^verbatim>\<open>db.update(t).set(f).where(p)\<close> rewrites every row that satisfies \<open>p\<close>;
  \<^verbatim>\<open>.returning()\<close> yields the rewritten rows, and the pattern \<^verbatim>\<open>const [row] = ...\<close>
  takes the first of them, \<^verbatim>\<open>undefined\<close> when there is none.
\<close>

definition updateWhere :: "('a \<Rightarrow> bool) \<Rightarrow> ('a \<Rightarrow> 'a) \<Rightarrow> 'a list \<Rightarrow> 'a list" where
  "updateWhere p f rows = map (\<lambda>r. if p r then f r else r) rows"

definition returning :: "('a \<Rightarrow> bool) \<Rightarrow> ('a \<Rightarrow> 'a) \<Rightarrow> 'a list \<Rightarrow> 'a list" where
  "returning p f rows = map f (filter p rows)"

definition first :: "'a list \<Rightarrow> 'a option" where
  "first rows = (case rows of [] \<Rightarrow> None | r # _ \<Rightarrow> Some r)"

text \<open>\<^verbatim>\<open>a || b\<close> on an optional string: \<^verbatim>\<open>undefined\<close> and the empty string are falsy.\<close>

definition orElse :: "string option \<Rightarrow> string \<Rightarrow> string" where
  "orElse a b = (case a of None \<Rightarrow> b | Some s \<Rightarrow> if s = [] then b else s)"

definition stagesOf :: "db \<Rightarrow> ident \<Rightarrow> timelineStage list" where
  "stagesOf d i = filter (\<lambda>s. tsApplicationId s = i) (timelineStages d)"

subsection \<open>Session middleware\<close>

record session =
  userId :: "ident option"
  userRole :: "string option"

definition requireAuth :: "session \<Rightarrow> (db \<Rightarrow> 'a response) \<Rightarrow> db \<Rightarrow> 'a response" where
  "requireAuth s next d =
     (if userId s = None then (Inl (Unauthorized ''Unauthorized''), d) else next d)"

definition requireRole :: "string list \<Rightarrow> session \<Rightarrow> (db \<Rightarrow> 'a response) \<Rightarrow> db \<Rightarrow> 'a response" where
  "requireRole roles s next d =
     (if userId s = None \<or> (case userRole s of None \<Rightarrow> [] | Some r \<Rightarrow> r) \<notin> set roles
      then (Inl (Forbidden ''Forbidden''), d) else next d)"

subsection \<open>POST /api/applications\<close>

record createApplicationData =
  cApplicationType :: application_type
  cInstitutionName :: "string option"
  cAddress :: "string option"
  cState :: "string option"
  cCourseName :: "string option"
  cIntake :: "int option"
  cDescription :: "string option"

fun digits :: "nat \<Rightarrow> string" where
  "digits n = (if n < 10 then [char_of (48 + n)] else digits (n div 10) @ [char_of (48 + n mod 10)])"

definition padStart :: "nat \<Rightarrow> char \<Rightarrow> string \<Rightarrow> string" where
  "padStart w c s = replicate (w - length s) c @ s"

text \<open>
  \<^verbatim>\<open>APP-${year}-${String(Math.floor(Math.random() * 1000000)).padStart(6, "0")}\<close>:
  the year of the clock and the random draw (below one million) are arguments.
\<close>

definition appNumber :: "nat \<Rightarrow> nat \<Rightarrow> string" where
  "appNumber year draw = ''APP-'' @ digits year @ ''-'' @ padStart 6 (CHR ''0'') (digits draw)"

definition timelineStagesData :: "(string \<times> string \<times> stage_status) list" where
  "timelineStagesData =
    [(''Application Submitted'', ''Application created'', Current),
     (''Initial Scrutiny'', ''Awaiting scrutiny'', Pending),
     (''Document Verification'', ''Awaiting verification'', Pending),
     (''Evaluator Assignment'', ''Awaiting evaluator'', Pending),
     (''Site Visit & Evaluation'', ''Pending site visit'', Pending),
     (''Final Approval'', ''Pending final review'', Pending)]"

definition newStage :: "ident \<Rightarrow> string \<times> string \<times> stage_status \<Rightarrow> timelineStage" where
  "newStage i stage = (case stage of (t, ds, st) \<Rightarrow>
     \<lparr>tsApplicationId = i, tsTitle = t, tsDescription = ds, tsStatus = st,
      tsAssignedTo = None, tsCompletedAt = None\<rparr>)"

text \<open>
  Modelled from the spec: the declaration of the table of applications
  (\<^verbatim>\<open>shared/schema\<close>) is not among the sources. The specification has every entity keyed by
  an opaque identifier; \<^verbatim>\<open>id\<close> is the key by which every handler selects and updates an
  application, so no two applications share it.
\<close>

definition keyFree :: "db \<Rightarrow> ident \<Rightarrow> bool" where
  "keyFree d i = (i \<notin> appId ` set (applications d))"

text \<open>
  The store generates the key of the new row (\<open>newId\<close>) and fills \<^verbatim>\<open>updatedAt\<close> with the
  column's default (\<open>dfltUpdatedAt\<close>); both are arguments. An insert under a key that is
  present already is refused by the store, like one that violates another constraint:
  the insert throws and the handler answers 500. The insert of the six stages that
  follows refers to the row just written; their columns \<^verbatim>\<open>assignedTo\<close> and \<^verbatim>\<open>completedAt\<close>
  are not given and stay null.
\<close>

definition createApplication ::
  "constraints \<Rightarrow> ident \<Rightarrow> string + createApplicationData \<Rightarrow> ident \<Rightarrow> nat \<Rightarrow> nat \<Rightarrow>
   timestamp option \<Rightarrow> db \<Rightarrow> application response" where
  "createApplication C uid validationResult newId year draw dfltUpdatedAt d =
    (case validationResult of
       Inl msg \<Rightarrow> (Inl (ValidationError msg), d)
     | Inr dat \<Rightarrow>
        (case find (\<lambda>i. instUserId i = uid) (institutions d) of
           None \<Rightarrow> (Inl (NotFound ''Institution not found''), d)
         | Some inst \<Rightarrow>
            (let app = \<lparr>appId = newId, appInstitutionId = instId inst,
                        applicationNumber = appNumber year draw,
                        applicationType = cApplicationType dat,
                        appStatus = Draft,
                        institutionName = orElse (cInstitutionName dat) (instName inst),
                        address = orElse (cAddress dat) (instAddress inst),
                        state = orElse (cState dat) (instState inst),
                        courseName = cCourseName dat, intake = cIntake dat,
                        description = cDescription dat,
                        submittedAt = None, updatedAt = dfltUpdatedAt\<rparr>
             in if \<not> keyFree d newId \<or> \<not> okApplication C d app
                then (Inl (InternalError ''Failed to create application''), d)
                else (Inr app,
                      d\<lparr>applications := applications d @ [app],
                        timelineStages := timelineStages d @ map (newStage newId) timelineStagesData\<rparr>))))"

subsection \<open>PUT /api/admin/applications/:id/status\<close>

definition setApplicationStatus ::
  "string + application_status \<Rightarrow> string \<Rightarrow> timestamp \<Rightarrow> db \<Rightarrow> application option response" where
  "setApplicationStatus validationResult number now d =
    (case validationResult of
       Inl msg \<Rightarrow> (Inl (ValidationError msg), d)
     | Inr st \<Rightarrow>
        (case find (\<lambda>a. applicationNumber a = number) (applications d) of
           None \<Rightarrow> (Inl (NotFound ''Application not found''), d)
         | Some app \<Rightarrow>
            (let p = (\<lambda>a. appId a = appId app);
                 f = (\<lambda>a. a\<lparr>appStatus := st, updatedAt := Some now\<rparr>)
             in (Inr (first (returning p f (applications d))),
                 d\<lparr>applications := updateWhere p f (applications d)\<rparr>))))"

subsection \<open>POST /api/applications/:id/submit\<close>

text \<open>
  The handler reads the clock three times: for \<^verbatim>\<open>submittedAt\<close>, for \<^verbatim>\<open>updatedAt\<close> and
  for the \<^verbatim>\<open>completedAt\<close> of the first stage.
\<close>

definition submitApplication ::
  "string \<Rightarrow> timestamp \<Rightarrow> timestamp \<Rightarrow> timestamp \<Rightarrow> db \<Rightarrow> application option response" where
  "submitApplication number tSubmitted tUpdated tCompleted d =
    (case find (\<lambda>a. applicationNumber a = number) (applications d) of
       None \<Rightarrow> (Inl (NotFound ''Application not found''), d)
     | Some app \<Rightarrow>
        (let p = (\<lambda>a. appId a = appId app);
             f = (\<lambda>a. a\<lparr>appStatus := Submitted, submittedAt := Some tSubmitted,
                         updatedAt := Some tUpdated\<rparr>);
             stages1 = updateWhere
               (\<lambda>s. tsApplicationId s = appId app \<and> tsTitle s = ''Application Submitted'')
               (\<lambda>s. s\<lparr>tsStatus := Completed, tsCompletedAt := Some tCompleted\<rparr>)
               (timelineStages d);
             stages2 = updateWhere
               (\<lambda>s. tsApplicationId s = appId app \<and> tsTitle s = ''Initial Scrutiny'')
               (\<lambda>s. s\<lparr>tsStatus := Current\<rparr>)
               stages1
         in (Inr (first (returning p f (applications d))),
             d\<lparr>applications := updateWhere p f (applications d), timelineStages := stages2\<rparr>)))"

subsection \<open>POST /api/admin/assign-evaluator\<close>

text \<open>
  \<open>aDeadline\<close> is the instant that \<^verbatim>\<open>new Date(deadline)\<close> denotes, \<open>None\<close> when the
  request carries no deadline.
\<close>

record assignEvaluatorData =
  aApplicationId :: ident
  aEvaluatorId :: ident
  aPriority :: "priority option"
  aDeadline :: "timestamp option"

definition assignEvaluator ::
  "constraints \<Rightarrow> string + assignEvaluatorData \<Rightarrow> ident \<Rightarrow> timestamp \<Rightarrow> db \<Rightarrow>
   evaluatorAssignment response" where
  "assignEvaluator C validationResult newId now d =
    (case validationResult of
       Inl msg \<Rightarrow> (Inl (ValidationError msg), d)
     | Inr dat \<Rightarrow>
        (let assignment = \<lparr>eaId = newId, eaApplicationId = aApplicationId dat,
                           eaEvaluatorId = aEvaluatorId dat,
                           eaPriority = (case aPriority dat of None \<Rightarrow> Medium | Some p \<Rightarrow> p),
                           eaDeadline = aDeadline dat, eaCompletedAt = None\<rparr>
         in if \<not> okAssignment C d assignment
            then (Inl (InternalError ''Failed to assign evaluator''), d)
            else (Inr assignment,
                  d\<lparr>evaluatorAssignments := evaluatorAssignments d @ [assignment],
                    applications := updateWhere (\<lambda>a. appId a = aApplicationId dat)
                      (\<lambda>a. a\<lparr>appStatus := UnderEvaluation, updatedAt := Some now\<rparr>)
                      (applications d)\<rparr>)))"

subsection \<open>POST /api/evaluations\<close>

record submitEvaluationData =
  sAssignmentId :: ident
  sApplicationId :: ident
  sScore :: int
  sComments :: "string option"
  sRecommendation :: string
  sSiteVisitNotes :: "string option"

text \<open>The completion step: the update of \<^verbatim>\<open>completedAt\<close> on the assignments with the given key.\<close>

definition completeAssignment :: "ident \<Rightarrow> timestamp \<Rightarrow> evaluatorAssignment list \<Rightarrow> evaluatorAssignment list" where
  "completeAssignment aid now rows =
     updateWhere (\<lambda>a. eaId a = aid) (\<lambda>a. a\<lparr>eaCompletedAt := Some now\<rparr>) rows"

definition recordEvaluation ::
  "constraints \<Rightarrow> ident \<Rightarrow> string + submitEvaluationData \<Rightarrow> ident \<Rightarrow> timestamp \<Rightarrow> db \<Rightarrow>
   evaluation response" where
  "recordEvaluation C uid validationResult newId now d =
    (case validationResult of
       Inl msg \<Rightarrow> (Inl (ValidationError msg), d)
     | Inr dat \<Rightarrow>
        (let ev = \<lparr>evId = newId, evAssignmentId = sAssignmentId dat,
                   evApplicationId = sApplicationId dat, evEvaluatorId = uid,
                   evScore = sScore dat, evComments = sComments dat,
                   evRecommendation = sRecommendation dat,
                   evSiteVisitNotes = sSiteVisitNotes dat\<rparr>
         in if \<not> okEvaluation C d ev
            then (Inl (InternalError ''Failed to submit evaluation''), d)
            else (Inr ev,
                  d\<lparr>evaluations := evaluations d @ [ev],
                    evaluatorAssignments :=
                      completeAssignment (sAssignmentId dat) now (evaluatorAssignments d)\<rparr>)))"

subsection \<open>GET /api/admin/dashboard: average processing time\<close>

text \<open>
  The statistic is computed by the store:
  \<^verbatim>\<open>COALESCE(AVG(EXTRACT(EPOCH FROM (updatedAt - submittedAt)) / 86400), 0)::int\<close>
  over the applications with status \<^verbatim>\<open>approved\<close> whose \<^verbatim>\<open>submittedAt\<close> and \<^verbatim>\<open>updatedAt\<close> are
  not null. \<open>approvedIntervals\<close> is the selection with the difference of the two instants
  (in milliseconds).
\<close>

definition approvedIntervals :: "db \<Rightarrow> int list" where
  "approvedIntervals d = List.map_filter
     (\<lambda>a. if appStatus a = Approved
          then (case (submittedAt a, updatedAt a) of
                  (Some s, Some u) \<Rightarrow> Some (u - s)
                | _ \<Rightarrow> None)
          else None)
     (applications d)"

text \<open>
  The arithmetic is that of PostgreSQL's type \<^verbatim>\<open>numeric\<close> (from version 14 on
  \<^verbatim>\<open>EXTRACT\<close> yields a \<^verbatim>\<open>numeric\<close>): a decimal number with a display scale, the number of
  digits after the point. A value is stored in digits of base 10000; its weight is the
  position of the first digit that is not zero.
\<close>

type_synonym numeric = "rat \<times> nat"

function ilog10000 :: "int \<Rightarrow> int" where
  "ilog10000 n = (if n < 10000 then 0 else 1 + ilog10000 (n div 10000))"
  by pat_completeness auto
termination
  by (relation "measure nat") auto

declare ilog10000.simps [simp del]

definition weightOf :: "rat \<Rightarrow> int" where
  "weightOf x = (if x = 0 then 0
     else (case quotient_of \<bar>x\<bar> of (p, q) \<Rightarrow>
       (let w = ilog10000 p - ilog10000 q
        in if 10000 powi w \<le> \<bar>x\<bar> then w else w - 1)))"

definition firstDigit :: "rat \<Rightarrow> int" where
  "firstDigit x = \<lfloor>\<bar>x\<bar> / 10000 powi weightOf x\<rfloor>"

text \<open>
  The scale of a quotient (\<^verbatim>\<open>select_div_scale\<close>): enough for sixteen significant digits,
  judged by the weights and first digits of the operands, and not less than the scale of
  either operand; at most 1000.
\<close>

definition selectDivScale :: "numeric \<Rightarrow> numeric \<Rightarrow> nat" where
  "selectDivScale a b =
     (let qweight = weightOf (fst a) - weightOf (fst b)
                      - (if firstDigit (fst a) \<le> firstDigit (fst b) then 1 else 0);
          rscale = 16 - qweight * 4
      in nat (min (max (max (max rscale (int (snd a))) (int (snd b))) 0) 1000))"

text \<open>
  Rounding to an integer, and to a scale: to the nearest, a half away from zero. The cast
  \<^verbatim>\<open>::int\<close> of a \<^verbatim>\<open>numeric\<close> is \<open>castInt\<close>.
\<close>

definition castInt :: "rat \<Rightarrow> int" where
  "castInt x = (if 0 \<le> x then \<lfloor>x + 1 / 2\<rfloor> else - \<lfloor>- x + 1 / 2\<rfloor>)"

definition roundScale :: "rat \<Rightarrow> nat \<Rightarrow> rat" where
  "roundScale x s = of_int (castInt (x * 10 ^ s)) / 10 ^ s"

text \<open>The divisors that occur here (86400 and a count of rows) are not zero.\<close>

definition numericDiv :: "numeric \<Rightarrow> numeric \<Rightarrow> numeric" where
  "numericDiv a b = (let s = selectDivScale a b in (roundScale (fst a / fst b) s, s))"

text \<open>\<^verbatim>\<open>EXTRACT(EPOCH FROM interval)\<close>: the seconds of the interval, at scale 6.\<close>

definition extractEpoch :: "int \<Rightarrow> numeric" where
  "extractEpoch ms = (of_int ms / 1000, 6)"

text \<open>
  \<^verbatim>\<open>AVG\<close> of no row is null; otherwise it is the exact sum, at the largest scale of the
  rows, divided by the count.
\<close>

definition sqlAvg :: "numeric list \<Rightarrow> numeric option" where
  "sqlAvg xs = (if xs = [] then None
     else Some (numericDiv (sum_list (map fst xs), fold max (map snd xs) 0)
                           (of_nat (length xs), 0)))"

definition coalesce :: "'a option \<Rightarrow> 'a \<Rightarrow> 'a" where
  "coalesce x dflt = (case x of None \<Rightarrow> dflt | Some v \<Rightarrow> v)"

definition avgDays :: "db \<Rightarrow> int" where
  "avgDays d = castInt (fst (coalesce
     (sqlAvg (map (\<lambda>i. numericDiv (extractEpoch i) (86400, 0)) (approvedIntervals d)))
     (0, 0)))"

text \<open>
  The handler renders the number: \<^verbatim>\<open>Number(avgProcessing[0]?.avgDays || 0)\<close>, then
  \<^verbatim>\<open>`${avgDays} days`\<close>. An aggregate query without grouping always yields one row.
\<close>

definition showNumber :: "int \<Rightarrow> string" where
  "showNumber n = (if n < 0 then ''-'' @ digits (nat (- n)) else digits (nat n))"

definition avgProcessingTime :: "db \<Rightarrow> string" where
  "avgProcessingTime d = showNumber (if avgDays d = 0 then 0 else avgDays d) @ '' days''"

text \<open>
  The statistic as the specification words it: the mean over the approved applications,
  in days, floored; zero when there is none.
\<close>

definition spec_avgProcessingDays :: "db \<Rightarrow> int" where
  "spec_avgProcessingDays d =
     (if approvedIntervals d = [] then 0
      else \<lfloor>(of_int (sum_list (approvedIntervals d)) / 86400000 :: rat)
             / of_nat (length (approvedIntervals d))\<rfloor>)"

subsection \<open>GET /api/applications/tracker: review progress\<close>

text \<open>
  A JavaScript number is an IEEE 754 double. The doubles that occur here are rationals;
  \<^verbatim>\<open>/\<close> and \<^verbatim>\<open>*\<close> yield the exact result rounded to the nearest double, a tie going to
  the even significand. The exponent range is not modelled: the operands are array
  lengths (below \<open>2 ^ 32\<close>), their quotient and its product with 100, far from overflow and
  from the subnormal numbers. Sums of array lengths are exact.
\<close>

text \<open>
  The nearest integer, a half going to the even neighbour.
\<close>

definition roundEven :: "rat \<Rightarrow> int" where
  "roundEven y = (let f = \<lfloor>y\<rfloor>; r = y - of_int f
     in if r < 1 / 2 then f else if 1 / 2 < r then f + 1 else if even f then f else f + 1)"

text \<open>
  \<open>ilog2 n\<close> is the position of the leading bit of a positive integer; \<open>expo x\<close> is the
  binary exponent of a positive rational, the \<open>e\<close> with \<open>2 powi e \<le> x < 2 powi (e + 1)\<close>.
\<close>

function ilog2 :: "int \<Rightarrow> int" where
  "ilog2 n = (if n \<le> 1 then 0 else 1 + ilog2 (n div 2))"
  by pat_completeness auto
termination
  by (relation "measure nat") auto

declare ilog2.simps [simp del]

definition expo :: "rat \<Rightarrow> int" where
  "expo x = (case quotient_of x of (p, q) \<Rightarrow>
     (let d = ilog2 p - ilog2 q
      in if 2 powi d \<le> x then d else d - 1))"

text \<open>
  \<open>fl x\<close> is the double nearest to \<open>x\<close>: \<open>x\<close> is rounded to a multiple of the unit in the
  last place of its binade, which leaves 53 significant bits.
\<close>

definition fl :: "rat \<Rightarrow> rat" where
  "fl x = (if x = 0 then 0
     else (let u = 2 powi (expo \<bar>x\<bar> - 52)
           in sgn x * of_int (roundEven (\<bar>x\<bar> / u)) * u))"

definition jsDiv :: "rat \<Rightarrow> rat \<Rightarrow> rat" where
  "jsDiv a b = fl (a / b)"

definition jsMul :: "rat \<Rightarrow> rat \<Rightarrow> rat" where
  "jsMul a b = fl (a * b)"

text \<open>
  \<^verbatim>\<open>Math.round\<close> yields the integer nearest to its argument, the one towards plus infinity
  when two are equally near.
\<close>

definition mathRound :: "rat \<Rightarrow> int" where
  "mathRound x = \<lfloor>x + 1 / 2\<rfloor>"

text \<open>
  The entry that the handler computes for one application (the body of the \<^verbatim>\<open>map\<close>): the
  documents of the application, the three counts and the percentage.
\<close>

record trackerEntry =
  tApplication :: application
  tDocuments :: "document list"
  tApprovedDocs :: nat
  tRejectedDocs :: nat
  tPendingDocs :: nat
  tEvaluationProgress :: int

definition applicationWithDetails :: "db \<Rightarrow> application \<Rightarrow> trackerEntry" where
  "applicationWithDetails d app =
    (let appDocuments = filter (\<lambda>doc. docApplicationId doc = appId app) (documents d);
         approvedDocs = length (filter (\<lambda>doc. docStatus doc = ''approved'') appDocuments);
         rejectedDocs = length (filter (\<lambda>doc. docStatus doc = ''rejected'') appDocuments);
         pendingDocs = length (filter (\<lambda>doc. docStatus doc = ''pending'') appDocuments);
         totalDocs = length appDocuments;
         evaluationProgress =
           (if totalDocs > 0
            then mathRound (jsMul (jsDiv (of_nat (approvedDocs + rejectedDocs)) (of_nat totalDocs)) 100)
            else 0)
     in \<lparr>tApplication = app, tDocuments = appDocuments, tApprovedDocs = approvedDocs,
         tRejectedDocs = rejectedDocs, tPendingDocs = pendingDocs,
         tEvaluationProgress = evaluationProgress\<rparr>)"

text \<open>
  The percentage as the specification words it, \<open>round\<close> being the nearest integer with a
  half rounded up.
\<close>

definition spec_verificationProgress :: "nat \<Rightarrow> nat \<Rightarrow> nat \<Rightarrow> int" where
  "spec_verificationProgress approved rejected totalDocs =
     (if totalDocs = 0 then 0
      else round (100 * of_nat (approved + rejected) / of_nat totalDocs :: rat))"

subsection \<open>Auxiliary definitions and example stores\<close>

text \<open>What the two stage updates of the submit handler do to the stages of one application.\<close>

definition submitStages :: "timestamp \<Rightarrow> timelineStage list \<Rightarrow> timelineStage list" where
  "submitStages t rows =
     updateWhere (\<lambda>s. tsTitle s = ''Initial Scrutiny'') (\<lambda>s. s\<lparr>tsStatus := Current\<rparr>)
       (updateWhere (\<lambda>s. tsTitle s = ''Application Submitted'')
          (\<lambda>s. s\<lparr>tsStatus := Completed, tsCompletedAt := Some t\<rparr>) rows)"

text \<open>A store with one institution, and the store after that institution created an application.\<close>

definition inst1 :: institution where
  "inst1 = \<lparr>instId = ''i1'', instUserId = ''u1'', instName = ''Delhi Institute of Technology'',
     instAddress = ''123 Tech Street'', instState = ''Delhi''\<rparr>"

definition db0 :: db where
  "db0 = emptyDb\<lparr>institutions := [inst1]\<rparr>"

definition app1 :: application where
  "app1 = \<lparr>appId = ''a1'', appInstitutionId = ''i1'', applicationNumber = ''APP-2025-000042'',
     applicationType = NewCourse, appStatus = Draft,
     institutionName = ''Delhi Institute of Technology'', address = ''123 Tech Street'',
     state = ''Delhi'', courseName = Some ''B.Tech AI'', intake = Some 60, description = None,
     submittedAt = None, updatedAt = Some 1000\<rparr>"

definition db1 :: db where
  "db1 = db0\<lparr>applications := [app1], timelineStages := map (newStage ''a1'') timelineStagesData\<rparr>"

text \<open>No constraint beyond the key of applications.\<close>

definition unconstrained :: constraints where
  "unconstrained = \<lparr>okApplication = (\<lambda>d r. True), okAssignment = (\<lambda>d r. True),
     okEvaluation = (\<lambda>d r. True)\<rparr>"

text \<open>
  The foreign keys that the relationships between the entities suggest: a row refers to
  rows that exist.
\<close>

definition referential :: constraints where
  "referential = \<lparr>
     okApplication = (\<lambda>d r. appInstitutionId r \<in> instId ` set (institutions d)),
     okAssignment = (\<lambda>d r. eaApplicationId r \<in> appId ` set (applications d)),
     okEvaluation = (\<lambda>d r. evAssignmentId r \<in> eaId ` set (evaluatorAssignments d)
                          \<and> evApplicationId r \<in> appId ` set (applications d))\<rparr>"

text \<open>
  The stores that follow \<open>db1\<close>: the application is submitted (\<open>db2\<close>), an evaluator is
  assigned (\<open>db3\<close>), the evaluator records an evaluation that recommends approval (\<open>db4\<close>).
\<close>

definition db2 :: db where
  "db2 = snd (submitApplication ''APP-2025-000042'' 2000 2001 2002 db1)"

definition assign1 :: assignEvaluatorData where
  "assign1 = \<lparr>aApplicationId = ''a1'', aEvaluatorId = ''e1'', aPriority = None,
     aDeadline = Some 9000\<rparr>"

definition db3 :: db where
  "db3 = snd (assignEvaluator unconstrained (Inr assign1) ''as1'' 3000 db2)"

definition approve1 :: submitEvaluationData where
  "approve1 = \<lparr>sAssignmentId = ''as1'', sApplicationId = ''a1'', sScore = 85,
     sComments = Some ''All requirements met'', sRecommendation = ''Approve'',
     sSiteVisitNotes = None\<rparr>"

definition db4 :: db where
  "db4 = snd (recordEvaluation unconstrained ''e1'' (Inr approve1) ''ev1'' 5000 db3)"

text \<open>A store whose only application has reached a terminal status.\<close>

definition dbApproved :: db where
  "dbApproved = db1\<lparr>applications := [app1\<lparr>appStatus := Approved, submittedAt := Some 2000\<rparr>]\<rparr>"

subsection \<open>Sequences of operations\<close>

text \<open>
  One constructor for each operation that writes to the store, with the arguments of its
  handler; \<open>step\<close> runs the handler and keeps the store that it leaves behind, also when
  the handler answers with an error.
\<close>

datatype op =
    Create ident "string + createApplicationData" ident nat nat "timestamp option"
  | Submit string timestamp timestamp timestamp
  | Assign "string + assignEvaluatorData" ident timestamp
  | Record ident "string + submitEvaluationData" ident timestamp
  | SetStatus "string + application_status" string timestamp

fun step :: "constraints \<Rightarrow> db \<Rightarrow> op \<Rightarrow> db" where
  "step C d (Create uid v newId year draw dflt) = snd (createApplication C uid v newId year draw dflt d)"
| "step C d (Submit number t1 t2 t3) = snd (submitApplication number t1 t2 t3 d)"
| "step C d (Assign v newId now) = snd (assignEvaluator C v newId now d)"
| "step C d (Record uid v newId now) = snd (recordEvaluation C uid v newId now d)"
| "step C d (SetStatus v number now) = snd (setApplicationStatus v number now d)"

definition run :: "constraints \<Rightarrow> db \<Rightarrow> op list \<Rightarrow> db" where
  "run C d ops = foldl (step C) d ops"

definition currentCount :: "db \<Rightarrow> ident \<Rightarrow> nat" where
  "currentCount d i = length (filter (\<lambda>s. tsStatus s = Current) (stagesOf d i))"

text \<open>The title and status of a stage; the two shapes that the stages of an application take.\<close>

definition titleStatus :: "timelineStage \<Rightarrow> string \<times> stage_status" where
  "titleStatus s = (tsTitle s, tsStatus s)"

definition createdShape :: "(string \<times> stage_status) list" where
  "createdShape =
    [(''Application Submitted'', Current), (''Initial Scrutiny'', Pending),
     (''Document Verification'', Pending), (''Evaluator Assignment'', Pending),
     (''Site Visit & Evaluation'', Pending), (''Final Approval'', Pending)]"

definition submittedShape :: "(string \<times> stage_status) list" where
  "submittedShape =
    [(''Application Submitted'', Completed), (''Initial Scrutiny'', Current),
     (''Document Verification'', Pending), (''Evaluator Assignment'', Pending),
     (''Site Visit & Evaluation'', Pending), (''Final Approval'', Pending)]"

text \<open>
  The invariant of the store: every stage belongs to an application of the store, and
  the stages of each application have one of the two shapes (or there are none).
\<close>

definition stagesOwned :: "db \<Rightarrow> bool" where
  "stagesOwned d = (\<forall>s \<in> set (timelineStages d). tsApplicationId s \<in> appId ` set (applications d))"

definition stagesShaped :: "db \<Rightarrow> bool" where
  "stagesShaped d = (\<forall>i. map titleStatus (stagesOf d i) \<in> {[], createdShape, submittedShape})"

text \<open>The conjunction of the two is preserved by every operation.\<close>

definition storeInv :: "db \<Rightarrow> bool" where
  "storeInv d = (stagesOwned d \<and> stagesShaped d)"

text \<open>A run of all five operations on one application, from a store without applications.\<close>

definition create1 :: createApplicationData where
  "create1 = \<lparr>cApplicationType = NewCourse, cInstitutionName = None, cAddress = Some [],
     cState = None, cCourseName = Some ''B.Tech AI'', cIntake = Some 60, cDescription = None\<rparr>"

definition opsW :: "op list" where
  "opsW = [Create ''u1'' (Inr create1) ''a1'' 2025 42 (Some 1000),
           Submit ''APP-2025-000042'' 2000 2001 2002,
           Assign (Inr assign1) ''as1'' 3000,
           Record ''e1'' (Inr approve1) ''ev1'' 5000,
           SetStatus (Inr Approved) ''APP-2025-000042'' 7000,
           Submit ''APP-2025-000042'' 8000 8001 8002]"

text \<open>
  The application of \<open>db2\<close>, approved by the administrator eighteen hours after it was
  submitted.
\<close>

definition dbQuick :: db where
  "dbQuick = snd (setApplicationStatus (Inr Approved) ''APP-2025-000042'' 64802000 db2)"

text \<open>
  Two approved applications that took one hour and seventy-one hours: a day and a half
  on average.
\<close>

definition dbTie :: db where
  "dbTie = db1\<lparr>applications :=
     [app1\<lparr>appStatus := Approved, submittedAt := Some 0, updatedAt := Some 3600000\<rparr>,
      app1\<lparr>appId := ''a2'', applicationNumber := ''APP-2025-000043'', appStatus := Approved,
           submittedAt := Some 0, updatedAt := Some 255600000\<rparr>]\<rparr>"

text \<open>
  Stores in which the application of \<open>db1\<close> has documents: five (three approved, one
  rejected, one pending) beside a document of another application, forty (23 approved,
  17 pending) and eight (one approved).
\<close>

definition mkDoc :: "string \<Rightarrow> document" where
  "mkDoc st = \<lparr>docApplicationId = ''a1'', docCategory = ''Building Plan'', docStatus = st\<rparr>"

definition dbDocs5 :: db where
  "dbDocs5 = db1\<lparr>documents := [mkDoc ''approved'', mkDoc ''approved'', mkDoc ''pending'',
     (mkDoc ''approved'')\<lparr>docApplicationId := ''a2''\<rparr>,
     mkDoc ''approved'', mkDoc ''rejected'']\<rparr>"

definition dbDocs40 :: db where
  "dbDocs40 = db1\<lparr>documents := replicate 23 (mkDoc ''approved'') @ replicate 17 (mkDoc ''pending'')\<rparr>"

definition dbDocs8 :: db where
  "dbDocs8 = db1\<lparr>documents := mkDoc ''approved'' # replicate 7 (mkDoc ''pending'')\<rparr>"

section \<open>Properties\<close>

subsection \<open>Store primitives\<close>

lemma find_SomeD: "find p xs = Some x \<Longrightarrow> x \<in> set xs \<and> p x"
  by (induction xs) (auto split: if_splits)

lemma first_returning:
  "x \<in> set rows \<Longrightarrow> p x \<Longrightarrow> \<exists>y \<in> set rows. p y \<and> first (returning p f rows) = Some (f y)"
  by (induction rows) (auto simp: first_def returning_def)

lemma filter_stage_update:
  assumes "\<And>r. tsApplicationId (f r) = tsApplicationId r"
  shows "filter (\<lambda>s. tsApplicationId s = i) (updateWhere (\<lambda>s. tsApplicationId s = j \<and> q s) f rows) =
     (if i = j then updateWhere q f (filter (\<lambda>s. tsApplicationId s = i) rows)
      else filter (\<lambda>s. tsApplicationId s = i) rows)"
  by (induction rows) (auto simp: updateWhere_def assms)

subsection \<open>Submission\<close>

lemma stagesOf_submit:
  assumes "find (\<lambda>a. applicationNumber a = number) (applications d) = Some app"
  shows "stagesOf (snd (submitApplication number t1 t2 t3 d)) i =
     (if i = appId app then submitStages t3 (stagesOf d i) else stagesOf d i)"
  using assms
  by (simp add: submitApplication_def stagesOf_def Let_def filter_stage_update submitStages_def)

lemma submitStages_new:
  "map (\<lambda>s. (tsTitle s, tsStatus s)) (submitStages t (map (newStage i) timelineStagesData)) =
    [(''Application Submitted'', Completed), (''Initial Scrutiny'', Current),
     (''Document Verification'', Pending), (''Evaluator Assignment'', Pending),
     (''Site Visit & Evaluation'', Pending), (''Final Approval'', Pending)]"
  by (simp add: submitStages_def timelineStagesData_def newStage_def updateWhere_def)

lemma appNumber_example: "appNumber 2025 42 = ''APP-2025-000042''"
  by code_simp

lemma db1_created:
  "createApplication unconstrained ''u1''
     (Inr \<lparr>cApplicationType = NewCourse, cInstitutionName = None, cAddress = Some [],
           cState = None, cCourseName = Some ''B.Tech AI'', cIntake = Some 60,
           cDescription = None\<rparr>) ''a1'' 2025 42 (Some 1000) db0 = (Inr app1, db1)"
  by (simp add: createApplication_def keyFree_def db0_def db1_def app1_def inst1_def emptyDb_def
      unconstrained_def orElse_def appNumber_example Let_def)

lemma map_appId_updateWhere:
  "(\<And>r. appId (f r) = appId r) \<Longrightarrow> map appId (updateWhere q f rows) = map appId rows"
  by (induction rows) (simp_all add: updateWhere_def)

lemma updateWhere_mem: "y \<in> set rows \<Longrightarrow> p y \<Longrightarrow> f y \<in> set (updateWhere p f rows)"
  by (induction rows) (auto simp: updateWhere_def)

lemma find_updateWhere:
  assumes "\<And>r. p (f r) = p r"
  shows "find p (updateWhere q f rows) = map_option (\<lambda>r. if q r then f r else r) (find p rows)"
  by (induction rows) (auto simp: updateWhere_def assms)

lemma submit_result:
  assumes "find (\<lambda>a. applicationNumber a = number) (applications d) = Some app"
  shows "\<exists>app' d'. submitApplication number t1 t2 t3 d = (Inr (Some app'), d')
     \<and> app' \<in> set (applications d')
     \<and> appId app' = appId app \<and> appStatus app' = Submitted \<and> submittedAt app' = Some t1
     \<and> find (\<lambda>a. applicationNumber a = number) (applications d')
         = Some (app\<lparr>appStatus := Submitted, submittedAt := Some t1, updatedAt := Some t2\<rparr>)
     \<and> map appId (applications d') = map appId (applications d)
     \<and> length (applications d') = length (applications d)
     \<and> (\<forall>k < length (applications d). applications d' ! k =
          (if appId (applications d ! k) = appId app
           then (applications d ! k)\<lparr>appStatus := Submitted, submittedAt := Some t1,
                                      updatedAt := Some t2\<rparr>
           else applications d ! k))
     \<and> d' = d\<lparr>applications := applications d', timelineStages := timelineStages d'\<rparr>"
proof -
  let ?f = "\<lambda>a. a\<lparr>appStatus := Submitted, submittedAt := Some t1, updatedAt := Some t2\<rparr>"
  let ?p = "\<lambda>a. appId a = appId app"
  from assms have "app \<in> set (applications d)" by (auto dest: find_SomeD)
  then obtain y where y: "y \<in> set (applications d)" "appId y = appId app"
    "first (returning ?p ?f (applications d)) = Some (?f y)"
    using first_returning[of app "applications d" ?p] by blast
  have mem: "?f y \<in> set (updateWhere ?p ?f (applications d))"
    using y(1,2) by (intro updateWhere_mem)
  have fnd: "find (\<lambda>a. applicationNumber a = number)
        (updateWhere ?p ?f (applications d)) = Some (?f app)"
    using assms by (simp add: find_updateWhere)
  have ids: "map appId (updateWhere ?p ?f (applications d)) = map appId (applications d)"
    by (rule map_appId_updateWhere) simp
  show ?thesis using assms y(2,3) fnd mem ids
    by (simp add: submitApplication_def Let_def) (simp add: updateWhere_def)
qed

lemma submitStages_created:
  "submitStages t (map (newStage i) timelineStagesData) =
    [\<lparr>tsApplicationId = i, tsTitle = ''Application Submitted'',
      tsDescription = ''Application created'', tsStatus = Completed,
      tsAssignedTo = None, tsCompletedAt = Some t\<rparr>,
     \<lparr>tsApplicationId = i, tsTitle = ''Initial Scrutiny'',
      tsDescription = ''Awaiting scrutiny'', tsStatus = Current,
      tsAssignedTo = None, tsCompletedAt = None\<rparr>,
     newStage i (''Document Verification'', ''Awaiting verification'', Pending),
     newStage i (''Evaluator Assignment'', ''Awaiting evaluator'', Pending),
     newStage i (''Site Visit & Evaluation'', ''Pending site visit'', Pending),
     newStage i (''Final Approval'', ''Pending final review'', Pending)]"
  by (simp add: submitStages_def timelineStagesData_def newStage_def updateWhere_def)

text \<open>
  Claim C4. Submitting an existing draft application whose stages are the six that the
  creation handler inserted succeeds. In the store it leaves behind, the table of
  applications has the same rows as before, except that the rows with the key of the
  application found are \<open>Submitted\<close> and carry the first clock reading in \<^verbatim>\<open>submittedAt\<close>; the
  lookup by number finds the application in that state. The first stage of the
  application ("Application Submitted") is \<open>Completed\<close>, the second ("Initial Scrutiny") is
  \<open>Current\<close>, the four others are as created; the stages of every other application and
  all other tables are untouched.
\<close>

theorem submit_draft_application:
  assumes "find (\<lambda>a. applicationNumber a = number) (applications d) = Some app"
      and "appStatus app = Draft"
      and "stagesOf d (appId app) = map (newStage (appId app)) timelineStagesData"
  shows "\<exists>app' d'. submitApplication number t1 t2 t3 d = (Inr (Some app'), d')
     \<and> app' \<in> set (applications d')
     \<and> appId app' = appId app \<and> appStatus app' = Submitted \<and> submittedAt app' = Some t1
     \<and> find (\<lambda>a. applicationNumber a = number) (applications d')
         = Some (app\<lparr>appStatus := Submitted, submittedAt := Some t1, updatedAt := Some t2\<rparr>)
     \<and> map appId (applications d') = map appId (applications d)
     \<and> length (applications d') = length (applications d)
     \<and> (\<forall>k < length (applications d). applications d' ! k =
          (if appId (applications d ! k) = appId app
           then (applications d ! k)\<lparr>appStatus := Submitted, submittedAt := Some t1,
                                      updatedAt := Some t2\<rparr>
           else applications d ! k))
     \<and> (\<forall>a \<in> set (applications d'). appId a = appId app \<longrightarrow>
           appStatus a = Submitted \<and> submittedAt a = Some t1)
     \<and> d' = d\<lparr>applications := applications d', timelineStages := timelineStages d'\<rparr>
     \<and> stagesOf d' (appId app) =
        [\<lparr>tsApplicationId = appId app, tsTitle = ''Application Submitted'',
          tsDescription = ''Application created'', tsStatus = Completed,
          tsAssignedTo = None, tsCompletedAt = Some t3\<rparr>,
         \<lparr>tsApplicationId = appId app, tsTitle = ''Initial Scrutiny'',
          tsDescription = ''Awaiting scrutiny'', tsStatus = Current,
          tsAssignedTo = None, tsCompletedAt = None\<rparr>,
         newStage (appId app) (''Document Verification'', ''Awaiting verification'', Pending),
         newStage (appId app) (''Evaluator Assignment'', ''Awaiting evaluator'', Pending),
         newStage (appId app) (''Site Visit & Evaluation'', ''Pending site visit'', Pending),
         newStage (appId app) (''Final Approval'', ''Pending final review'', Pending)]
     \<and> map (\<lambda>s. (tsTitle s, tsStatus s)) (stagesOf d' (appId app)) =
        [(''Application Submitted'', Completed), (''Initial Scrutiny'', Current),
         (''Document Verification'', Pending), (''Evaluator Assignment'', Pending),
         (''Site Visit & Evaluation'', Pending), (''Final Approval'', Pending)]
     \<and> (\<forall>i. i \<noteq> appId app \<longrightarrow> stagesOf d' i = stagesOf d i)"
proof -
  let ?f = "\<lambda>a. a\<lparr>appStatus := Submitted, submittedAt := Some t1, updatedAt := Some t2\<rparr>"
  from submit_result[OF assms(1), of t1 t2 t3]
  obtain app' d' where r: "submitApplication number t1 t2 t3 d = (Inr (Some app'), d')"
    "appId app' = appId app" "appStatus app' = Submitted" "submittedAt app' = Some t1"
    "find (\<lambda>a. applicationNumber a = number) (applications d') = Some (?f app)"
    "length (applications d') = length (applications d)"
    "\<forall>k < length (applications d). applications d' ! k =
          (if appId (applications d ! k) = appId app then ?f (applications d ! k)
           else applications d ! k)"
    "d' = d\<lparr>applications := applications d', timelineStages := timelineStages d'\<rparr>"
    and r2: "app' \<in> set (applications d')"
      "map appId (applications d') = map appId (applications d)"
    by blast
  have d': "d' = snd (submitApplication number t1 t2 t3 d)" using r(1) by simp
  have st: "stagesOf d' i = (if i = appId app then submitStages t3 (stagesOf d i) else stagesOf d i)"
    for i
    unfolding d' by (rule stagesOf_submit[OF assms(1)])
  have own: "stagesOf d' (appId app) = submitStages t3 (map (newStage (appId app)) timelineStagesData)"
    using st[of "appId app"] assms(3) by simp
  have others: "\<forall>i. i \<noteq> appId app \<longrightarrow> stagesOf d' i = stagesOf d i"
    using st by simp
  have all: "\<forall>a \<in> set (applications d'). appId a = appId app \<longrightarrow>
      appStatus a = Submitted \<and> submittedAt a = Some t1"
  proof (intro ballI impI)
    fix a assume a: "a \<in> set (applications d')" "appId a = appId app"
    then obtain k where k: "k < length (applications d')" "a = applications d' ! k"
      by (auto simp: in_set_conv_nth)
    then have k': "k < length (applications d)" using r(6) by simp
    show "appStatus a = Submitted \<and> submittedAt a = Some t1"
      using r(7)[rule_format, OF k'] k(2) a(2) by (auto split: if_splits)
  qed
  have own_full: "stagesOf d' (appId app) =
        [\<lparr>tsApplicationId = appId app, tsTitle = ''Application Submitted'',
          tsDescription = ''Application created'', tsStatus = Completed,
          tsAssignedTo = None, tsCompletedAt = Some t3\<rparr>,
         \<lparr>tsApplicationId = appId app, tsTitle = ''Initial Scrutiny'',
          tsDescription = ''Awaiting scrutiny'', tsStatus = Current,
          tsAssignedTo = None, tsCompletedAt = None\<rparr>,
         newStage (appId app) (''Document Verification'', ''Awaiting verification'', Pending),
         newStage (appId app) (''Evaluator Assignment'', ''Awaiting evaluator'', Pending),
         newStage (appId app) (''Site Visit & Evaluation'', ''Pending site visit'', Pending),
         newStage (appId app) (''Final Approval'', ''Pending final review'', Pending)]"
    unfolding own by (rule submitStages_created)
  have own_ts: "map (\<lambda>s. (tsTitle s, tsStatus s)) (stagesOf d' (appId app)) =
        [(''Application Submitted'', Completed), (''Initial Scrutiny'', Current),
         (''Document Verification'', Pending), (''Evaluator Assignment'', Pending),
         (''Site Visit & Evaluation'', Pending), (''Final Approval'', Pending)]"
    unfolding own by (rule submitStages_new)
  show ?thesis
    by (intro exI[of _ app'] exI[of _ d'] conjI) (fact r r2 all own_full own_ts others)+
qed

theorem submit_draft_application_witness:
  "find (\<lambda>a. applicationNumber a = ''APP-2025-000042'') (applications db1) = Some app1
   \<and> appStatus app1 = Draft
   \<and> stagesOf db1 (appId app1) = map (newStage (appId app1)) timelineStagesData
   \<and> (\<exists>app' d'. submitApplication ''APP-2025-000042'' 2000 2001 2002 db1 = (Inr (Some app'), d')
       \<and> appId app' = appId app1 \<and> appStatus app' = Submitted \<and> submittedAt app' = Some 2000
       \<and> find (\<lambda>a. applicationNumber a = ''APP-2025-000042'') (applications d')
           = Some (app1\<lparr>appStatus := Submitted, submittedAt := Some 2000,
                        updatedAt := Some 2001\<rparr>)
       \<and> length (applications d') = length (applications db1)
       \<and> map (\<lambda>s. (tsTitle s, tsStatus s)) (stagesOf d' (appId app1)) =
          [(''Application Submitted'', Completed), (''Initial Scrutiny'', Current),
           (''Document Verification'', Pending), (''Evaluator Assignment'', Pending),
           (''Site Visit & Evaluation'', Pending), (''Final Approval'', Pending)])"
proof -
  have h1: "find (\<lambda>a. applicationNumber a = ''APP-2025-000042'') (applications db1) = Some app1"
    by (simp add: db1_def app1_def)
  have h2: "appStatus app1 = Draft"
    by (simp add: app1_def)
  have h3: "stagesOf db1 (appId app1) = map (newStage (appId app1)) timelineStagesData"
    by (simp add: stagesOf_def db1_def app1_def newStage_def timelineStagesData_def)
  from submit_draft_application [OF h1 h2 h3, of 2000 2001 2002]
  have "\<exists>app' d'. submitApplication ''APP-2025-000042'' 2000 2001 2002 db1 = (Inr (Some app'), d')
       \<and> appId app' = appId app1 \<and> appStatus app' = Submitted \<and> submittedAt app' = Some 2000
       \<and> find (\<lambda>a. applicationNumber a = ''APP-2025-000042'') (applications d')
           = Some (app1\<lparr>appStatus := Submitted, submittedAt := Some 2000,
                        updatedAt := Some 2001\<rparr>)
       \<and> length (applications d') = length (applications db1)
       \<and> map (\<lambda>s. (tsTitle s, tsStatus s)) (stagesOf d' (appId app1)) =
          [(''Application Submitted'', Completed), (''Initial Scrutiny'', Current),
           (''Document Verification'', Pending), (''Evaluator Assignment'', Pending),
           (''Site Visit & Evaluation'', Pending), (''Final Approval'', Pending)]"
    by (elim exE conjE, intro exI conjI) assumption+
  with h1 h2 h3 show ?thesis by (intro conjI)
qed

lemma db2_eq:
  "db2 = db1\<lparr>applications :=
       [app1\<lparr>appStatus := Submitted, submittedAt := Some 2000, updatedAt := Some 2001\<rparr>],
     timelineStages := submitStages 2002 (map (newStage ''a1'') timelineStagesData)\<rparr>"
  by (simp add: db2_def submitApplication_def db1_def app1_def updateWhere_def Let_def
      submitStages_def timelineStagesData_def newStage_def)

text \<open>
  Claim C2, amended. Submitting fails with \<open>NotFound\<close> (404), the store unchanged, when no
  application carries the number. The handler does not look at the current status: when
  the lookup finds an application, submitting succeeds, answers with an application of
  that key in status \<open>Submitted\<close>, and leaves the application stored as \<open>Submitted\<close> (the
  rows with its key are rewritten, every other row is as before). A second submission
  right after the first succeeds in the same way and stamps its own clock readings.
\<close>

theorem submit_not_found_else_succeeds:
  "(find (\<lambda>a. applicationNumber a = number) (applications d) = None \<longrightarrow>
      submitApplication number t1 t2 t3 d = (Inl (NotFound ''Application not found''), d))
   \<and> (find (\<lambda>a. applicationNumber a = number) (applications d) = Some app \<longrightarrow>
      (\<exists>app' d'. submitApplication number t1 t2 t3 d = (Inr (Some app'), d')
          \<and> app' \<in> set (applications d')
          \<and> appId app' = appId app \<and> appStatus app' = Submitted
          \<and> find (\<lambda>a. applicationNumber a = number) (applications d')
              = Some (app\<lparr>appStatus := Submitted, submittedAt := Some t1, updatedAt := Some t2\<rparr>)
          \<and> length (applications d') = length (applications d)
          \<and> (\<forall>k < length (applications d). applications d' ! k =
               (if appId (applications d ! k) = appId app
                then (applications d ! k)\<lparr>appStatus := Submitted, submittedAt := Some t1,
                                           updatedAt := Some t2\<rparr>
                else applications d ! k))
          \<and> (\<exists>app'' d''. submitApplication number t4 t5 t6 d' = (Inr (Some app''), d'')
                \<and> appId app'' = appId app \<and> appStatus app'' = Submitted
                \<and> find (\<lambda>a. applicationNumber a = number) (applications d'')
                    = Some (app\<lparr>appStatus := Submitted, submittedAt := Some t4,
                                 updatedAt := Some t5\<rparr>)
                \<and> length (applications d'') = length (applications d)
                \<and> (\<forall>k < length (applications d). applications d'' ! k =
                     (if appId (applications d ! k) = appId app
                      then (applications d ! k)\<lparr>appStatus := Submitted, submittedAt := Some t4,
                                                 updatedAt := Some t5\<rparr>
                      else applications d ! k)))))"
proof (intro conjI impI)
  assume "find (\<lambda>a. applicationNumber a = number) (applications d) = None"
  then show "submitApplication number t1 t2 t3 d = (Inl (NotFound ''Application not found''), d)"
    by (simp add: submitApplication_def)
next
  assume a: "find (\<lambda>a. applicationNumber a = number) (applications d) = Some app"
  let ?app1 = "app\<lparr>appStatus := Submitted, submittedAt := Some t1, updatedAt := Some t2\<rparr>"
  from submit_result[OF a, of t1 t2 t3]
  obtain app' d' where 1: "submitApplication number t1 t2 t3 d = (Inr (Some app'), d')"
    "appId app' = appId app" "appStatus app' = Submitted"
    "find (\<lambda>a. applicationNumber a = number) (applications d') = Some ?app1"
    "length (applications d') = length (applications d)"
    "\<forall>k < length (applications d). applications d' ! k =
          (if appId (applications d ! k) = appId app
           then (applications d ! k)\<lparr>appStatus := Submitted, submittedAt := Some t1,
                                      updatedAt := Some t2\<rparr>
           else applications d ! k)"
    and mem1: "app' \<in> set (applications d')"
    by blast
  from submit_result[OF 1(4), of t4 t5 t6]
  obtain app'' d'' where 2: "submitApplication number t4 t5 t6 d' = (Inr (Some app''), d'')"
    "appId app'' = appId ?app1" "appStatus app'' = Submitted"
    "find (\<lambda>a. applicationNumber a = number) (applications d'')
       = Some (?app1\<lparr>appStatus := Submitted, submittedAt := Some t4, updatedAt := Some t5\<rparr>)"
    "length (applications d'') = length (applications d')"
    "\<forall>k < length (applications d'). applications d'' ! k =
          (if appId (applications d' ! k) = appId ?app1
           then (applications d' ! k)\<lparr>appStatus := Submitted, submittedAt := Some t4,
                                      updatedAt := Some t5\<rparr>
           else applications d' ! k)"
    by blast
  have rows: "\<forall>k < length (applications d). applications d'' ! k =
          (if appId (applications d ! k) = appId app
           then (applications d ! k)\<lparr>appStatus := Submitted, submittedAt := Some t4,
                                      updatedAt := Some t5\<rparr>
           else applications d ! k)"
  proof (intro allI impI)
    fix k assume k: "k < length (applications d)"
    then have k': "k < length (applications d')" using 1(5) by simp
    show "applications d'' ! k =
          (if appId (applications d ! k) = appId app
           then (applications d ! k)\<lparr>appStatus := Submitted, submittedAt := Some t4,
                                      updatedAt := Some t5\<rparr>
           else applications d ! k)"
      using 1(6)[rule_format, OF k] 2(6)[rule_format, OF k'] by simp
  qed
  have second: "\<exists>app'' d''. submitApplication number t4 t5 t6 d' = (Inr (Some app''), d'')
                \<and> appId app'' = appId app \<and> appStatus app'' = Submitted
                \<and> find (\<lambda>a. applicationNumber a = number) (applications d'')
                    = Some (app\<lparr>appStatus := Submitted, submittedAt := Some t4,
                                 updatedAt := Some t5\<rparr>)
                \<and> length (applications d'') = length (applications d)
                \<and> (\<forall>k < length (applications d). applications d'' ! k =
                     (if appId (applications d ! k) = appId app
                      then (applications d ! k)\<lparr>appStatus := Submitted, submittedAt := Some t4,
                                                 updatedAt := Some t5\<rparr>
                      else applications d ! k))"
    using 2(1,2,3,4,5) 1(5) rows by (intro exI[of _ app''] exI[of _ d'']) simp
  show "\<exists>app' d'. submitApplication number t1 t2 t3 d = (Inr (Some app'), d')
          \<and> app' \<in> set (applications d')
          \<and> appId app' = appId app \<and> appStatus app' = Submitted
          \<and> find (\<lambda>a. applicationNumber a = number) (applications d')
              = Some (app\<lparr>appStatus := Submitted, submittedAt := Some t1, updatedAt := Some t2\<rparr>)
          \<and> length (applications d') = length (applications d)
          \<and> (\<forall>k < length (applications d). applications d' ! k =
               (if appId (applications d ! k) = appId app
                then (applications d ! k)\<lparr>appStatus := Submitted, submittedAt := Some t1,
                                           updatedAt := Some t2\<rparr>
                else applications d ! k))
          \<and> (\<exists>app'' d''. submitApplication number t4 t5 t6 d' = (Inr (Some app''), d'')
                \<and> appId app'' = appId app \<and> appStatus app'' = Submitted
                \<and> find (\<lambda>a. applicationNumber a = number) (applications d'')
                    = Some (app\<lparr>appStatus := Submitted, submittedAt := Some t4,
                                 updatedAt := Some t5\<rparr>)
                \<and> length (applications d'') = length (applications d)
                \<and> (\<forall>k < length (applications d). applications d'' ! k =
                     (if appId (applications d ! k) = appId app
                      then (applications d ! k)\<lparr>appStatus := Submitted, submittedAt := Some t4,
                                                 updatedAt := Some t5\<rparr>
                      else applications d ! k)))"
    using 1 mem1 second by (intro exI[of _ app'] exI[of _ d']) simp
qed

theorem submit_not_found_else_succeeds_witness:
  "find (\<lambda>a. applicationNumber a = ''APP-2025-000043'') (applications db1) = None
   \<and> submitApplication ''APP-2025-000043'' 2000 2001 2002 db1
       = (Inl (NotFound ''Application not found''), db1)
   \<and> find (\<lambda>a. applicationNumber a = ''APP-2025-000042'') (applications db1) = Some app1
   \<and> (\<exists>app' d'. submitApplication ''APP-2025-000042'' 2000 2001 2002 db1 = (Inr (Some app'), d')
         \<and> appStatus app' = Submitted
         \<and> find (\<lambda>a. applicationNumber a = ''APP-2025-000042'') (applications d')
             = Some (app1\<lparr>appStatus := Submitted, submittedAt := Some 2000,
                          updatedAt := Some 2001\<rparr>)
         \<and> (\<exists>app'' d''. submitApplication ''APP-2025-000042'' 2500 2501 2502 d'
                 = (Inr (Some app''), d'')
               \<and> appStatus app'' = Submitted
               \<and> find (\<lambda>a. applicationNumber a = ''APP-2025-000042'') (applications d'')
                   = Some (app1\<lparr>appStatus := Submitted, submittedAt := Some 2500,
                                updatedAt := Some 2501\<rparr>)))"
proof -
  have h1: "find (\<lambda>a. applicationNumber a = ''APP-2025-000042'') (applications db1) = Some app1"
    by (simp add: db1_def app1_def)
  have h2: "find (\<lambda>a. applicationNumber a = ''APP-2025-000043'') (applications db1) = None"
    by (simp add: db1_def app1_def)
  from submit_not_found_else_succeeds [of "''APP-2025-000043''" db1 2000 2001 2002 app1 2500 2501 2502] h2
  have c1: "submitApplication ''APP-2025-000043'' 2000 2001 2002 db1
       = (Inl (NotFound ''Application not found''), db1)"
    by blast
  note inst = submit_not_found_else_succeeds
    [of "''APP-2025-000042''" db1 2000 2001 2002 app1 2500 2501 2502, THEN conjunct2, THEN mp, OF h1]
  from inst obtain app' d' where 1:
    "submitApplication ''APP-2025-000042'' 2000 2001 2002 db1 = (Inr (Some app'), d')"
    "appStatus app' = Submitted"
    "find (\<lambda>a. applicationNumber a = ''APP-2025-000042'') (applications d')
       = Some (app1\<lparr>appStatus := Submitted, submittedAt := Some 2000, updatedAt := Some 2001\<rparr>)"
    and 2: "\<exists>app'' d''. submitApplication ''APP-2025-000042'' 2500 2501 2502 d'
                 = (Inr (Some app''), d'')
               \<and> appStatus app'' = Submitted
               \<and> find (\<lambda>a. applicationNumber a = ''APP-2025-000042'') (applications d'')
                   = Some (app1\<lparr>appStatus := Submitted, submittedAt := Some 2500,
                                updatedAt := Some 2501\<rparr>)"
    by (elim exE conjE) blast
  have c2: "\<exists>app' d'. submitApplication ''APP-2025-000042'' 2000 2001 2002 db1 = (Inr (Some app'), d')
         \<and> appStatus app' = Submitted
         \<and> find (\<lambda>a. applicationNumber a = ''APP-2025-000042'') (applications d')
             = Some (app1\<lparr>appStatus := Submitted, submittedAt := Some 2000,
                          updatedAt := Some 2001\<rparr>)
         \<and> (\<exists>app'' d''. submitApplication ''APP-2025-000042'' 2500 2501 2502 d'
                 = (Inr (Some app''), d'')
               \<and> appStatus app'' = Submitted
               \<and> find (\<lambda>a. applicationNumber a = ''APP-2025-000042'') (applications d'')
                   = Some (app1\<lparr>appStatus := Submitted, submittedAt := Some 2500,
                                updatedAt := Some 2501\<rparr>))"
    by (insert 1 2, rule exI[of _ app'], rule exI[of _ d'], intro conjI, assumption+)
  from h2 c1 h1 c2 show ?thesis by (intro conjI)
qed

text \<open>
  The claim as stated fails: in \<open>db2\<close> the application has been submitted once and its
  status is \<open>Submitted\<close>, not \<open>Draft\<close>; the second submission succeeds and stamps a new
  \<^verbatim>\<open>submittedAt\<close>.
\<close>

theorem submit_twice_counterexample:
  "appStatus (hd (applications db2)) = Submitted
   \<and> fst (submitApplication ''APP-2025-000042'' 2500 2501 2502 db2)
     = Inr (Some (app1\<lparr>appStatus := Submitted, submittedAt := Some 2500, updatedAt := Some 2501\<rparr>))"
  by (simp add: db2_eq submitApplication_def Let_def db1_def app1_def returning_def first_def)

subsection \<open>The administrator's override\<close>

text \<open>
  Claim C6. For an existing application and any status that the validator lets through,
  the override succeeds whatever the current status is. In the store it leaves behind,
  only the table of applications differs; there, the rows with the key of the application
  found carry the requested status and the clock reading in \<^verbatim>\<open>updatedAt\<close> and are
  otherwise as before, and every other row is as before. The timeline stages are untouched.
\<close>

theorem admin_set_status:
  assumes "find (\<lambda>a. applicationNumber a = number) (applications d) = Some app"
  shows "\<exists>app' d'. setApplicationStatus (Inr st) number now d = (Inr (Some app'), d')
     \<and> appId app' = appId app \<and> appStatus app' = st \<and> updatedAt app' = Some now
     \<and> d' = d\<lparr>applications := applications d'\<rparr>
     \<and> timelineStages d' = timelineStages d
     \<and> length (applications d') = length (applications d)
     \<and> (\<forall>k < length (applications d). applications d' ! k =
          (if appId (applications d ! k) = appId app
           then (applications d ! k)\<lparr>appStatus := st, updatedAt := Some now\<rparr>
           else applications d ! k))"
proof -
  let ?f = "\<lambda>a. a\<lparr>appStatus := st, updatedAt := Some now\<rparr>"
  from assms have "app \<in> set (applications d)" by (auto dest: find_SomeD)
  then obtain y where y: "appId y = appId app"
    "first (returning (\<lambda>a. appId a = appId app) ?f (applications d)) = Some (?f y)"
    using first_returning[of app "applications d" "\<lambda>a. appId a = appId app"] by blast
  show ?thesis using assms y
    by (simp add: setApplicationStatus_def Let_def updateWhere_def)
qed

theorem admin_set_status_witness:
  "find (\<lambda>a. applicationNumber a = ''APP-2025-000042'') (applications dbApproved)
     = Some (app1\<lparr>appStatus := Approved, submittedAt := Some 2000\<rparr>)
   \<and> (\<exists>app' d'. setApplicationStatus (Inr Draft) ''APP-2025-000042'' 7000 dbApproved
                   = (Inr (Some app'), d')
     \<and> appStatus app' = Draft \<and> updatedAt app' = Some 7000
     \<and> timelineStages d' = timelineStages dbApproved)"
proof -
  have h: "find (\<lambda>a. applicationNumber a = ''APP-2025-000042'') (applications dbApproved)
     = Some (app1\<lparr>appStatus := Approved, submittedAt := Some 2000\<rparr>)"
    by (simp add: dbApproved_def app1_def)
  show ?thesis
    using h admin_set_status [OF h, of Draft 7000] by blast
qed

subsection \<open>Recording an evaluation\<close>

lemma db3_eq:
  "db3 = db2\<lparr>applications :=
       [app1\<lparr>appStatus := UnderEvaluation, submittedAt := Some 2000, updatedAt := Some 3000\<rparr>],
     evaluatorAssignments := [\<lparr>eaId = ''as1'', eaApplicationId = ''a1'', eaEvaluatorId = ''e1'',
        eaPriority = Medium, eaDeadline = Some 9000, eaCompletedAt = None\<rparr>]\<rparr>"
  by (simp add: db3_def db2_eq assignEvaluator_def unconstrained_def assign1_def Let_def
     db1_def db0_def emptyDb_def app1_def updateWhere_def)

lemma db4_eq:
  "db4 = db3\<lparr>evaluations := [\<lparr>evId = ''ev1'', evAssignmentId = ''as1'', evApplicationId = ''a1'',
        evEvaluatorId = ''e1'', evScore = 85, evComments = Some ''All requirements met'',
        evRecommendation = ''Approve'', evSiteVisitNotes = None\<rparr>],
     evaluatorAssignments := [\<lparr>eaId = ''as1'', eaApplicationId = ''a1'', eaEvaluatorId = ''e1'',
        eaPriority = Medium, eaDeadline = Some 9000, eaCompletedAt = Some 5000\<rparr>]\<rparr>"
  by (simp add: db4_def db3_eq recordEvaluation_def unconstrained_def approve1_def Let_def
     db2_eq db1_def db0_def emptyDb_def completeAssignment_def updateWhere_def)

lemma updateWhere_none: "(\<And>r. r \<in> set rows \<Longrightarrow> \<not> q r) \<Longrightarrow> updateWhere q f rows = rows"
  by (induction rows) (simp_all add: updateWhere_def)

lemma updateWhere_fixed: "(\<And>r. r \<in> set rows \<Longrightarrow> q r \<Longrightarrow> f r = r) \<Longrightarrow> updateWhere q f rows = rows"
  by (induction rows) (simp_all add: updateWhere_def)

lemma completeAssignment_twice:
  "completeAssignment aid t2 (completeAssignment aid t1 rows) = completeAssignment aid t2 rows"
  by (induction rows) (simp_all add: completeAssignment_def updateWhere_def)

lemma completeAssignment_stamps:
  assumes "a \<in> set (completeAssignment aid now rows)" and "eaId a = aid"
  shows "eaCompletedAt a = Some now"
proof -
  from assms(1)
  have "a \<in> (\<lambda>r. if eaId r = aid then r\<lparr>eaCompletedAt := Some now\<rparr> else r) ` set rows"
    by (simp add: completeAssignment_def updateWhere_def)
  then obtain r where r: "a = (if eaId r = aid then r\<lparr>eaCompletedAt := Some now\<rparr> else r)"
    by (rule imageE)
  show ?thesis
  proof (cases "eaId r = aid")
    case True
    with r show ?thesis by simp
  next
    case False
    with r assms(2) show ?thesis by simp
  qed
qed

text \<open>
  Claim C1, amended. Recording an evaluation, whatever it recommends ("Approve" and
  "Reject" included), appends the evaluation and stamps \<^verbatim>\<open>completedAt\<close> on the assignment
  with the given key; the handler writes neither to the applications nor to the timeline
  stages, so the status of the application and the status of each of its stages stay as
  they were.
\<close>

theorem record_evaluation_effect:
  assumes "okEvaluation C d
     \<lparr>evId = newId, evAssignmentId = sAssignmentId dat, evApplicationId = sApplicationId dat,
      evEvaluatorId = uid, evScore = sScore dat, evComments = sComments dat,
      evRecommendation = sRecommendation dat, evSiteVisitNotes = sSiteVisitNotes dat\<rparr>"
  shows "\<exists>ev d'. recordEvaluation C uid (Inr dat) newId now d = (Inr ev, d')
     \<and> evRecommendation ev = sRecommendation dat \<and> evAssignmentId ev = sAssignmentId dat
     \<and> evaluations d' = evaluations d @ [ev]
     \<and> map eaId (evaluatorAssignments d') = map eaId (evaluatorAssignments d)
     \<and> (\<forall>a \<in> set (evaluatorAssignments d').
           eaId a = sAssignmentId dat \<longrightarrow> eaCompletedAt a = Some now)
     \<and> applications d' = applications d
     \<and> timelineStages d' = timelineStages d"
  using assms
  by (auto simp: recordEvaluation_def Let_def completeAssignment_def updateWhere_def)

theorem record_evaluation_effect_witness:
  "okEvaluation unconstrained db3
     \<lparr>evId = ''ev1'', evAssignmentId = sAssignmentId approve1,
      evApplicationId = sApplicationId approve1, evEvaluatorId = ''e1'',
      evScore = sScore approve1, evComments = sComments approve1,
      evRecommendation = sRecommendation approve1,
      evSiteVisitNotes = sSiteVisitNotes approve1\<rparr>
   \<and> (\<exists>ev d'. recordEvaluation unconstrained ''e1'' (Inr approve1) ''ev1'' 5000 db3 = (Inr ev, d')
     \<and> evRecommendation ev = ''Approve''
     \<and> map eaCompletedAt (evaluatorAssignments d') = [Some 5000]
     \<and> map appStatus (applications d') = [UnderEvaluation])"
proof -
  have h: "okEvaluation unconstrained db3
     \<lparr>evId = ''ev1'', evAssignmentId = sAssignmentId approve1,
      evApplicationId = sApplicationId approve1, evEvaluatorId = ''e1'',
      evScore = sScore approve1, evComments = sComments approve1,
      evRecommendation = sRecommendation approve1,
      evSiteVisitNotes = sSiteVisitNotes approve1\<rparr>"
    by (simp add: unconstrained_def)
  from record_evaluation_effect [OF h, of 5000]
  obtain ev d' where *: "recordEvaluation unconstrained ''e1'' (Inr approve1) ''ev1'' 5000 db3 = (Inr ev, d')"
    "evRecommendation ev = sRecommendation approve1"
    "applications d' = applications db3"
    by blast
  from *(1) have "d' = db4" by (simp add: db4_def)
  then have c1: "map eaCompletedAt (evaluatorAssignments d') = [Some 5000]"
    by (simp add: db4_eq)
  have c2: "map appStatus (applications d') = [UnderEvaluation]"
    using *(3) by (simp add: db3_eq)
  have c3: "evRecommendation ev = ''Approve''"
    using *(2) by (simp add: approve1_def)
  from *(1) c1 c2 c3 have "\<exists>ev d'. recordEvaluation unconstrained ''e1'' (Inr approve1) ''ev1'' 5000 db3 = (Inr ev, d')
     \<and> evRecommendation ev = ''Approve''
     \<and> map eaCompletedAt (evaluatorAssignments d') = [Some 5000]
     \<and> map appStatus (applications d') = [UnderEvaluation]"
    by (intro exI[of _ ev] exI[of _ d']) simp
  with h show ?thesis by (rule conjI)
qed

text \<open>
  The claim as stated fails. In \<open>db3\<close> the application is under evaluation and the
  assignment \<^verbatim>\<open>as1\<close> belongs to it; after the evaluation that recommends "Approve" is
  recorded (\<open>db4\<close>), the application is still under evaluation and its stages are as the
  submission left them.
\<close>

theorem record_approve_counterexample:
  "map appStatus (applications db3) = [UnderEvaluation]
   \<and> map (\<lambda>a. (eaId a, eaApplicationId a)) (evaluatorAssignments db3) = [(''as1'', ''a1'')]
   \<and> recordEvaluation unconstrained ''e1'' (Inr approve1) ''ev1'' 5000 db3 =
       (Inr \<lparr>evId = ''ev1'', evAssignmentId = ''as1'', evApplicationId = ''a1'',
             evEvaluatorId = ''e1'', evScore = 85, evComments = Some ''All requirements met'',
             evRecommendation = ''Approve'', evSiteVisitNotes = None\<rparr>, db4)
   \<and> map appStatus (applications db4) = [UnderEvaluation]
   \<and> map tsStatus (stagesOf db4 ''a1'') = [Completed, Current, Pending, Pending, Pending, Pending]"
  by (simp add: db4_eq db3_eq db2_eq db1_def db0_def emptyDb_def app1_def approve1_def
      recordEvaluation_def unconstrained_def Let_def completeAssignment_def updateWhere_def
      stagesOf_def submitStages_def timelineStagesData_def newStage_def)

text \<open>
  Claim C8, amended. The handler never answers \<open>NotFound\<close>. When no assignment has the
  given key, no assignment is completed (the table of assignments is left as it was):
  either the store refuses the insert and the handler answers 500 with the store
  unchanged, or the evaluation is recorded and returned.
\<close>

theorem record_evaluation_missing_assignment:
  "fst (recordEvaluation C uid v newId now d) \<noteq> Inl (NotFound m)
   \<and> (sAssignmentId dat \<notin> eaId ` set (evaluatorAssignments d) \<longrightarrow>
       evaluatorAssignments (snd (recordEvaluation C uid (Inr dat) newId now d))
         = evaluatorAssignments d
       \<and> (recordEvaluation C uid (Inr dat) newId now d
            = (Inl (InternalError ''Failed to submit evaluation''), d)
          \<or> (\<exists>ev. recordEvaluation C uid (Inr dat) newId now d
                = (Inr ev, d\<lparr>evaluations := evaluations d @ [ev]\<rparr>))))"
proof -
  have same: "completeAssignment (sAssignmentId dat) now (evaluatorAssignments d)
      = evaluatorAssignments d"
    if "sAssignmentId dat \<notin> eaId ` set (evaluatorAssignments d)"
  proof -
    have "\<not> eaId r = sAssignmentId dat" if "r \<in> set (evaluatorAssignments d)" for r
      using that \<open>sAssignmentId dat \<notin> eaId ` set (evaluatorAssignments d)\<close> by (metis imageI)
    then show ?thesis
      unfolding completeAssignment_def by (rule updateWhere_none)
  qed
  have never: "fst (recordEvaluation C uid v newId now d) \<noteq> Inl (NotFound m)"
    by (cases v) (simp_all add: recordEvaluation_def Let_def)
  have missing: "evaluatorAssignments (snd (recordEvaluation C uid (Inr dat) newId now d))
         = evaluatorAssignments d
       \<and> (recordEvaluation C uid (Inr dat) newId now d
            = (Inl (InternalError ''Failed to submit evaluation''), d)
          \<or> (\<exists>ev. recordEvaluation C uid (Inr dat) newId now d
                = (Inr ev, d\<lparr>evaluations := evaluations d @ [ev]\<rparr>)))"
    if "sAssignmentId dat \<notin> eaId ` set (evaluatorAssignments d)"
    using same[OF that] by (simp add: recordEvaluation_def Let_def)
  from never missing show ?thesis by blast
qed

theorem record_evaluation_missing_assignment_witness:
  "sAssignmentId (approve1\<lparr>sAssignmentId := ''as9''\<rparr>) \<notin> eaId ` set (evaluatorAssignments db3)
   \<and> evaluatorAssignments (snd (recordEvaluation referential ''e1''
         (Inr (approve1\<lparr>sAssignmentId := ''as9''\<rparr>)) ''ev1'' 5000 db3)) = evaluatorAssignments db3
   \<and> fst (recordEvaluation referential ''e1''
         (Inr (approve1\<lparr>sAssignmentId := ''as9''\<rparr>)) ''ev1'' 5000 db3)
       \<noteq> Inl (NotFound ''Assignment not found'')"
proof -
  have h: "sAssignmentId (approve1\<lparr>sAssignmentId := ''as9''\<rparr>) \<notin> eaId ` set (evaluatorAssignments db3)"
    by (simp add: db3_eq)
  show ?thesis
    using h record_evaluation_missing_assignment [of referential "''e1''"
        "Inr (approve1\<lparr>sAssignmentId := ''as9''\<rparr>)" "''ev1''" 5000 db3
        "''Assignment not found''" "approve1\<lparr>sAssignmentId := ''as9''\<rparr>"]
    by blast
qed

text \<open>
  The claim as stated fails. In \<open>db3\<close> no assignment has the key \<^verbatim>\<open>as9\<close>. Without foreign
  keys the handler records the evaluation and answers with it; with them it answers 500.
  In neither case does it answer \<open>NotFound\<close>.
\<close>

theorem record_missing_assignment_counterexample:
  "''as9'' \<notin> eaId ` set (evaluatorAssignments db3)
   \<and> recordEvaluation unconstrained ''e1'' (Inr (approve1\<lparr>sAssignmentId := ''as9''\<rparr>)) ''ev1'' 5000 db3
     = (Inr \<lparr>evId = ''ev1'', evAssignmentId = ''as9'', evApplicationId = ''a1'',
             evEvaluatorId = ''e1'', evScore = 85, evComments = Some ''All requirements met'',
             evRecommendation = ''Approve'', evSiteVisitNotes = None\<rparr>,
        db3\<lparr>evaluations := [\<lparr>evId = ''ev1'', evAssignmentId = ''as9'', evApplicationId = ''a1'',
             evEvaluatorId = ''e1'', evScore = 85, evComments = Some ''All requirements met'',
             evRecommendation = ''Approve'', evSiteVisitNotes = None\<rparr>]\<rparr>)
   \<and> recordEvaluation referential ''e1'' (Inr (approve1\<lparr>sAssignmentId := ''as9''\<rparr>)) ''ev1'' 5000 db3
     = (Inl (InternalError ''Failed to submit evaluation''), db3)"
  by (simp add: db3_eq db2_eq db1_def db0_def emptyDb_def app1_def approve1_def
      recordEvaluation_def unconstrained_def referential_def Let_def completeAssignment_def
      updateWhere_def)

text \<open>
  Claim C10, amended. The completion step is not an error on an assignment that is
  completed already, but it is not a no-op either: it overwrites the stored completion
  timestamp with the current clock reading, so that of two completions the later one
  decides. It leaves the stored timestamp as it is when the clock reading equals it; in
  particular the step repeated with the same reading changes nothing.
\<close>

theorem complete_assignment_overwrites:
  "(\<forall>a \<in> set (completeAssignment aid now rows). eaId a = aid \<longrightarrow> eaCompletedAt a = Some now)
   \<and> completeAssignment aid t2 (completeAssignment aid t1 rows) = completeAssignment aid t2 rows
   \<and> completeAssignment aid now (completeAssignment aid now rows) = completeAssignment aid now rows
   \<and> ((\<forall>a \<in> set rows. eaId a = aid \<longrightarrow> eaCompletedAt a = Some now) \<longrightarrow>
        completeAssignment aid now rows = rows)"
proof -
  have "completeAssignment aid now rows = rows"
    if "\<forall>a \<in> set rows. eaId a = aid \<longrightarrow> eaCompletedAt a = Some now"
    using that unfolding completeAssignment_def
    by (intro updateWhere_fixed) simp
  then show ?thesis
    using completeAssignment_twice completeAssignment_stamps by blast
qed

theorem complete_assignment_overwrites_witness:
  "map (\<lambda>a. (eaId a, eaCompletedAt a)) (evaluatorAssignments db4) = [(''as1'', Some 5000)]
   \<and> completeAssignment ''as1'' 5000 (evaluatorAssignments db4) = evaluatorAssignments db4
   \<and> eaCompletedAt (hd (completeAssignment ''as1'' 6000 (evaluatorAssignments db4))) = Some 6000"
proof -
  let ?rows = "evaluatorAssignments db4"
  have rows: "map (\<lambda>a. (eaId a, eaCompletedAt a)) ?rows = [(''as1'', Some 5000)]"
    by (simp add: db4_eq)
  then have h: "\<forall>a \<in> set ?rows. eaId a = ''as1'' \<longrightarrow> eaCompletedAt a = Some 5000"
    by auto
  from h complete_assignment_overwrites [of "''as1''" 5000 ?rows]
  have c1: "completeAssignment ''as1'' 5000 ?rows = ?rows"
    by blast
  have mem: "hd (completeAssignment ''as1'' 6000 ?rows) \<in> set (completeAssignment ''as1'' 6000 ?rows)
      \<and> eaId (hd (completeAssignment ''as1'' 6000 ?rows)) = ''as1''"
    by (simp add: db4_eq completeAssignment_def updateWhere_def)
  from complete_assignment_overwrites [of "''as1''" 6000 ?rows]
  have "\<forall>a \<in> set (completeAssignment ''as1'' 6000 ?rows).
      eaId a = ''as1'' \<longrightarrow> eaCompletedAt a = Some 6000"
    by (rule conjunct1)
  with mem have c2: "eaCompletedAt (hd (completeAssignment ''as1'' 6000 ?rows)) = Some 6000"
    by blast
  from rows c1 c2 show ?thesis by blast
qed

text \<open>
  The claim as stated fails. In \<open>db4\<close> the assignment \<^verbatim>\<open>as1\<close> was completed at 5000; the
  completion step at 6000 replaces the stored timestamp.
\<close>

theorem complete_twice_counterexample:
  "map eaCompletedAt (evaluatorAssignments db4) = [Some 5000]
   \<and> map eaCompletedAt (completeAssignment ''as1'' 6000 (evaluatorAssignments db4)) = [Some 6000]
   \<and> map eaCompletedAt (evaluatorAssignments
        (snd (recordEvaluation unconstrained ''e1'' (Inr approve1) ''ev2'' 6000 db4))) = [Some 6000]"
  by (simp add: db4_eq completeAssignment_def updateWhere_def recordEvaluation_def
      unconstrained_def approve1_def Let_def)

subsection \<open>Terminal statuses\<close>

lemma updateWhere_sets:
  assumes "a \<in> set (updateWhere q f rows)" and "q a" and "\<And>r. q (f r) = q r"
  shows "\<exists>r \<in> set rows. a = f r"
proof -
  from assms(1) have "a \<in> (\<lambda>r. if q r then f r else r) ` set rows"
    by (simp add: updateWhere_def)
  then obtain r where r: "r \<in> set rows" "a = (if q r then f r else r)"
    by (auto simp: image_iff)
  show ?thesis
  proof (cases "q r")
    case True
    with r show ?thesis by auto
  next
    case False
    with r assms(2) show ?thesis by simp
  qed
qed

text \<open>
  Claim C7, amended. Recording an evaluation changes no application, so it leaves a
  terminal status alone. Submission and the assignment of an evaluator carry no guard on
  the current status: submission puts the application found into status \<open>Submitted\<close>, and
  the assignment of an evaluator puts the application named into \<open>UnderEvaluation\<close>,
  whatever the status was, a terminal one included. A terminal status is thus left
  through submission and assignment as well as through the administrator's override.
\<close>

theorem guided_operations_and_status:
  "applications (snd (recordEvaluation C uid v newId now d)) = applications d
   \<and> (find (\<lambda>a. applicationNumber a = number) (applications d) = Some app \<longrightarrow>
        map appId (applications (snd (submitApplication number t1 t2 t3 d)))
          = map appId (applications d)
        \<and> (\<forall>a \<in> set (applications (snd (submitApplication number t1 t2 t3 d))).
              appId a = appId app \<longrightarrow> appStatus a = Submitted))
   \<and> (okAssignment C d
          \<lparr>eaId = newId, eaApplicationId = aApplicationId dat, eaEvaluatorId = aEvaluatorId dat,
           eaPriority = (case aPriority dat of None \<Rightarrow> Medium | Some p \<Rightarrow> p),
           eaDeadline = aDeadline dat, eaCompletedAt = None\<rparr> \<longrightarrow>
        map appId (applications (snd (assignEvaluator C (Inr dat) newId now d)))
          = map appId (applications d)
        \<and> (\<forall>a \<in> set (applications (snd (assignEvaluator C (Inr dat) newId now d))).
              appId a = aApplicationId dat \<longrightarrow> appStatus a = UnderEvaluation))"
proof (intro conjI impI ballI)
  show "applications (snd (recordEvaluation C uid v newId now d)) = applications d"
    by (cases v) (simp_all add: recordEvaluation_def Let_def)
next
  assume f: "find (\<lambda>a. applicationNumber a = number) (applications d) = Some app"
  let ?f = "\<lambda>a. a\<lparr>appStatus := Submitted, submittedAt := Some t1, updatedAt := Some t2\<rparr>"
  have apps: "applications (snd (submitApplication number t1 t2 t3 d))
      = updateWhere (\<lambda>a. appId a = appId app) ?f (applications d)"
    using f by (simp add: submitApplication_def Let_def)
  show "map appId (applications (snd (submitApplication number t1 t2 t3 d)))
      = map appId (applications d)"
    unfolding apps by (rule map_appId_updateWhere) simp
  fix a
  assume "a \<in> set (applications (snd (submitApplication number t1 t2 t3 d)))"
    and "appId a = appId app"
  then obtain r where "a = ?f r"
    using updateWhere_sets[of a "\<lambda>a. appId a = appId app" ?f "applications d"]
    unfolding apps by auto
  then show "appStatus a = Submitted" by simp
next
  assume ok: "okAssignment C d
          \<lparr>eaId = newId, eaApplicationId = aApplicationId dat, eaEvaluatorId = aEvaluatorId dat,
           eaPriority = (case aPriority dat of None \<Rightarrow> Medium | Some p \<Rightarrow> p),
           eaDeadline = aDeadline dat, eaCompletedAt = None\<rparr>"
  let ?f = "\<lambda>a. a\<lparr>appStatus := UnderEvaluation, updatedAt := Some now\<rparr>"
  have apps: "applications (snd (assignEvaluator C (Inr dat) newId now d))
      = updateWhere (\<lambda>a. appId a = aApplicationId dat) ?f (applications d)"
    using ok by (simp add: assignEvaluator_def Let_def)
  show "map appId (applications (snd (assignEvaluator C (Inr dat) newId now d)))
      = map appId (applications d)"
    unfolding apps by (rule map_appId_updateWhere) simp
  fix a
  assume "a \<in> set (applications (snd (assignEvaluator C (Inr dat) newId now d)))"
    and "appId a = aApplicationId dat"
  then obtain r where "a = ?f r"
    using updateWhere_sets[of a "\<lambda>a. appId a = aApplicationId dat" ?f "applications d"]
    unfolding apps by auto
  then show "appStatus a = UnderEvaluation" by simp
qed

theorem guided_operations_and_status_witness:
  "find (\<lambda>a. applicationNumber a = ''APP-2025-000042'') (applications dbApproved)
     = Some (app1\<lparr>appStatus := Approved, submittedAt := Some 2000\<rparr>)
   \<and> okAssignment unconstrained dbApproved
          \<lparr>eaId = ''n1'', eaApplicationId = aApplicationId assign1,
           eaEvaluatorId = aEvaluatorId assign1,
           eaPriority = (case aPriority assign1 of None \<Rightarrow> Medium | Some p \<Rightarrow> p),
           eaDeadline = aDeadline assign1, eaCompletedAt = None\<rparr>
   \<and> applications (snd (recordEvaluation unconstrained ''e1'' (Inr approve1) ''n1'' 6000 dbApproved))
       = applications dbApproved
   \<and> appStatus (hd (applications
        (snd (submitApplication ''APP-2025-000042'' 6000 6001 6002 dbApproved)))) = Submitted
   \<and> appStatus (hd (applications
        (snd (assignEvaluator unconstrained (Inr assign1) ''n1'' 6000 dbApproved))))
       = UnderEvaluation"
proof -
  let ?app = "app1\<lparr>appStatus := Approved, submittedAt := Some 2000\<rparr>"
  let ?s = "applications (snd (submitApplication ''APP-2025-000042'' 6000 6001 6002 dbApproved))"
  let ?a = "applications (snd (assignEvaluator unconstrained (Inr assign1) ''n1'' 6000 dbApproved))"
  have h1: "find (\<lambda>a. applicationNumber a = ''APP-2025-000042'') (applications dbApproved)
     = Some ?app"
    by (simp add: dbApproved_def app1_def)
  have h2: "okAssignment unconstrained dbApproved
          \<lparr>eaId = ''n1'', eaApplicationId = aApplicationId assign1,
           eaEvaluatorId = aEvaluatorId assign1,
           eaPriority = (case aPriority assign1 of None \<Rightarrow> Medium | Some p \<Rightarrow> p),
           eaDeadline = aDeadline assign1, eaCompletedAt = None\<rparr>"
    by (simp add: unconstrained_def)
  note inst = guided_operations_and_status [of unconstrained "''e1''" "Inr approve1" "''n1''" 6000
        dbApproved "''APP-2025-000042''" ?app 6000 6001 6002 assign1]
  from inst have c1: "applications (snd (recordEvaluation unconstrained ''e1'' (Inr approve1) ''n1'' 6000 dbApproved))
       = applications dbApproved"
    by (rule conjunct1)
  from inst h1 have ids: "map appId ?s = map appId (applications dbApproved)"
    and sub: "\<forall>a \<in> set ?s. appId a = appId ?app \<longrightarrow> appStatus a = Submitted"
    by blast+
  from inst h2 have ida: "map appId ?a = map appId (applications dbApproved)"
    and asg: "\<forall>a \<in> set ?a. appId a = aApplicationId assign1 \<longrightarrow> appStatus a = UnderEvaluation"
    by blast+
  have key: "map appId (applications dbApproved) = [''a1'']"
    by (simp add: dbApproved_def app1_def)
  have hdmem: "hd xs \<in> set xs \<and> appId (hd xs) = ''a1''" if "map appId xs = [''a1'']"
    for xs :: "application list"
    using that by (cases xs) auto
  have "appStatus (hd ?s) = Submitted"
    using sub hdmem[of ?s] ids key by (simp add: app1_def)
  moreover have "appStatus (hd ?a) = UnderEvaluation"
    using asg hdmem[of ?a] ida key by (simp add: assign1_def)
  ultimately show ?thesis using h1 h2 c1 by blast
qed

text \<open>
  The claim as stated fails. The only application of \<open>dbApproved\<close> is approved; submitting
  it makes it \<open>Submitted\<close>, and assigning an evaluator to it makes it \<open>UnderEvaluation\<close>.
\<close>

theorem terminal_status_counterexample:
  "map appStatus (applications dbApproved) = [Approved]
   \<and> map appStatus (applications
        (snd (submitApplication ''APP-2025-000042'' 6000 6001 6002 dbApproved))) = [Submitted]
   \<and> map appStatus (applications
        (snd (assignEvaluator unconstrained (Inr assign1) ''as2'' 6000 dbApproved)))
      = [UnderEvaluation]"
  by (simp add: dbApproved_def db1_def app1_def submitApplication_def assignEvaluator_def
      unconstrained_def assign1_def Let_def updateWhere_def)

subsection \<open>The timeline invariant\<close>

lemma storeInv_frame:
  assumes "storeInv d" and "timelineStages d' = timelineStages d"
    and "map appId (applications d') = map appId (applications d)"
  shows "storeInv d'"
proof -
  have "appId ` set (applications d') = appId ` set (applications d)"
    using assms(3) by (metis set_map)
  then show ?thesis
    using assms(1,2) by (simp add: storeInv_def stagesOwned_def stagesShaped_def stagesOf_def)
qed

lemma stagesOwned_alt:
  "stagesOwned d = (set (map tsApplicationId (timelineStages d)) \<subseteq> set (map appId (applications d)))"
  by (auto simp: stagesOwned_def)

lemma create_result:
  "snd (createApplication C uid v newId year draw dflt d) = d \<or>
   (newId \<notin> appId ` set (applications d) \<and>
    map appId (applications (snd (createApplication C uid v newId year draw dflt d)))
      = map appId (applications d) @ [newId] \<and>
    timelineStages (snd (createApplication C uid v newId year draw dflt d))
      = timelineStages d @ map (newStage newId) timelineStagesData)"
  by (simp add: createApplication_def keyFree_def Let_def split: sum.splits option.splits)

lemma storeInv_create:
  assumes "storeInv d"
  shows "storeInv (snd (createApplication C uid v newId year draw dflt d))"
proof -
  let ?d' = "snd (createApplication C uid v newId year draw dflt d)"
  from create_result[of C uid v newId year draw dflt d]
  consider "?d' = d"
    | "newId \<notin> appId ` set (applications d)"
      "map appId (applications ?d') = map appId (applications d) @ [newId]"
      "timelineStages ?d' = timelineStages d @ map (newStage newId) timelineStagesData"
    by blast
  then show ?thesis
  proof cases
    case 1
    with assms show ?thesis by simp
  next
    case 2
    have owners: "map tsApplicationId (map (newStage newId) timelineStagesData) = replicate 6 newId"
      by (simp add: timelineStagesData_def newStage_def numeral_eq_Suc)
    have none: "stagesOf d newId = []"
      using assms 2(1) by (auto simp: storeInv_def stagesOwned_def stagesOf_def filter_empty_conv)
    have new: "filter (\<lambda>s. tsApplicationId s = i) (map (newStage newId) timelineStagesData)
        = (if i = newId then map (newStage newId) timelineStagesData else [])" for i
      by (simp add: timelineStagesData_def newStage_def)
    have shape: "map titleStatus (map (newStage newId) timelineStagesData) = createdShape"
      by (simp add: timelineStagesData_def newStage_def titleStatus_def createdShape_def)
    have "stagesOwned d" using assms by (simp add: storeInv_def)
    then have owned: "stagesOwned ?d'"
      unfolding stagesOwned_alt 2(2,3) using owners by auto
    have "map titleStatus (stagesOf ?d' i) \<in> {[], createdShape, submittedShape}" for i
    proof (cases "i = newId")
      case True
      then show ?thesis using none shape new[of i] 2(3)
        by (simp add: stagesOf_def)
    next
      case False
      then show ?thesis using assms new[of i] 2(3)
        by (simp add: stagesOf_def storeInv_def stagesShaped_def)
    qed
    with owned show ?thesis by (simp add: storeInv_def stagesShaped_def)
  qed
qed

lemma titleStatus_submitStages:
  "map titleStatus (submitStages t rows) =
     map (\<lambda>p. if fst p = ''Initial Scrutiny'' then (fst p, Current)
              else if fst p = ''Application Submitted'' then (fst p, Completed) else p)
       (map titleStatus rows)"
  by (induction rows) (simp_all add: submitStages_def updateWhere_def titleStatus_def)

lemma submitStages_shapes:
  assumes "map titleStatus rows \<in> {[], createdShape, submittedShape}"
  shows "map titleStatus (submitStages t rows) \<in> {[], createdShape, submittedShape}"
proof -
  consider "map titleStatus rows = []" | "map titleStatus rows = createdShape"
    | "map titleStatus rows = submittedShape"
    using assms by blast
  then show ?thesis
  proof cases
    case 1
    then show ?thesis by (simp add: titleStatus_submitStages)
  next
    case 2
    then show ?thesis by (simp add: titleStatus_submitStages createdShape_def submittedShape_def)
  next
    case 3
    then show ?thesis by (simp add: titleStatus_submitStages createdShape_def submittedShape_def)
  qed
qed

lemma map_owner_updateWhere:
  "(\<And>r. tsApplicationId (f r) = tsApplicationId r) \<Longrightarrow>
   map tsApplicationId (updateWhere q f rows) = map tsApplicationId rows"
  by (induction rows) (simp_all add: updateWhere_def)

lemma storeInv_submit:
  assumes "storeInv d"
  shows "storeInv (snd (submitApplication number t1 t2 t3 d))"
proof (cases "find (\<lambda>a. applicationNumber a = number) (applications d)")
  case None
  then have "snd (submitApplication number t1 t2 t3 d) = d"
    by (simp add: submitApplication_def)
  with assms show ?thesis by simp
next
  case (Some app)
  let ?d' = "snd (submitApplication number t1 t2 t3 d)"
  have ids: "map appId (applications ?d') = map appId (applications d)"
    using Some by (simp add: submitApplication_def Let_def map_appId_updateWhere)
  have owners: "map tsApplicationId (timelineStages ?d') = map tsApplicationId (timelineStages d)"
    using Some by (simp add: submitApplication_def Let_def map_owner_updateWhere)
  have "stagesOwned d" using assms by (simp add: storeInv_def)
  then have owned: "stagesOwned ?d'"
    unfolding stagesOwned_alt ids owners .
  have sh: "map titleStatus (stagesOf d i) \<in> {[], createdShape, submittedShape}" for i
    using assms by (simp add: storeInv_def stagesShaped_def)
  have "map titleStatus (stagesOf ?d' i) \<in> {[], createdShape, submittedShape}" for i
  proof (cases "i = appId app")
    case True
    then have "stagesOf ?d' i = submitStages t3 (stagesOf d i)"
      using stagesOf_submit[OF Some, of t1 t2 t3 i] by simp
    then show ?thesis
      using submitStages_shapes[OF sh[of i], of t3] by simp
  next
    case False
    then have "stagesOf ?d' i = stagesOf d i"
      using stagesOf_submit[OF Some, of t1 t2 t3 i] by simp
    then show ?thesis using sh[of i] by simp
  qed
  with owned show ?thesis by (simp add: storeInv_def stagesShaped_def)
qed

lemma storeInv_assign:
  assumes "storeInv d"
  shows "storeInv (snd (assignEvaluator C v newId now d))"
proof (rule storeInv_frame[OF assms])
  show "timelineStages (snd (assignEvaluator C v newId now d)) = timelineStages d"
    by (cases v) (simp_all add: assignEvaluator_def Let_def)
  show "map appId (applications (snd (assignEvaluator C v newId now d))) = map appId (applications d)"
    by (cases v) (simp_all add: assignEvaluator_def Let_def map_appId_updateWhere)
qed

lemma storeInv_record:
  assumes "storeInv d"
  shows "storeInv (snd (recordEvaluation C uid v newId now d))"
proof (rule storeInv_frame[OF assms])
  show "timelineStages (snd (recordEvaluation C uid v newId now d)) = timelineStages d"
    by (cases v) (simp_all add: recordEvaluation_def Let_def)
  show "map appId (applications (snd (recordEvaluation C uid v newId now d))) = map appId (applications d)"
    by (cases v) (simp_all add: recordEvaluation_def Let_def)
qed

lemma storeInv_setStatus:
  assumes "storeInv d"
  shows "storeInv (snd (setApplicationStatus v number now d))"
proof (rule storeInv_frame[OF assms])
  show "timelineStages (snd (setApplicationStatus v number now d)) = timelineStages d"
    by (cases v; cases "find (\<lambda>a. applicationNumber a = number) (applications d)")
       (simp_all add: setApplicationStatus_def Let_def)
  show "map appId (applications (snd (setApplicationStatus v number now d))) = map appId (applications d)"
    by (cases v; cases "find (\<lambda>a. applicationNumber a = number) (applications d)")
       (simp_all add: setApplicationStatus_def Let_def map_appId_updateWhere)
qed

lemma storeInv_step: "storeInv d \<Longrightarrow> storeInv (step C d x)"
  by (cases x) (simp_all add: storeInv_create storeInv_submit storeInv_assign storeInv_record
      storeInv_setStatus)

lemma storeInv_run: "storeInv d \<Longrightarrow> storeInv (run C d ops)"
  unfolding run_def by (induction ops arbitrary: d) (simp_all add: storeInv_step)

lemma storeInv_current: "storeInv d \<Longrightarrow> currentCount d i \<le> 1"
proof -
  assume "storeInv d"
  then have sh: "map titleStatus (stagesOf d i) \<in> {[], createdShape, submittedShape}"
    by (simp add: storeInv_def stagesShaped_def)
  have "currentCount d i = length (filter (\<lambda>p. snd p = Current) (map titleStatus (stagesOf d i)))"
    by (simp add: currentCount_def filter_map comp_def titleStatus_def)
  also have "\<dots> \<le> 1"
    using sh by (auto simp: createdShape_def submittedShape_def)
  finally show ?thesis .
qed

text \<open>
  Claim C3. Start from a store that holds no application and no stage, and run any
  sequence of operations (create, submit, assign evaluator, record evaluation, set
  status), whether they succeed or fail. After any number of them, every application of
  the store has at most one stage whose status is \<open>Current\<close>.
\<close>

theorem at_most_one_current_stage:
  assumes "applications d0 = []" and "timelineStages d0 = []"
  shows "\<forall>a \<in> set (applications (run C d0 (take n ops))).
           currentCount (run C d0 (take n ops)) (appId a) \<le> 1"
proof -
  have "storeInv d0"
    using assms by (simp add: storeInv_def stagesOwned_def stagesShaped_def stagesOf_def)
  then have "storeInv (run C d0 (take n ops))"
    by (rule storeInv_run)
  then show ?thesis
    by (intro ballI storeInv_current)
qed

lemma run_opsW:
  "run unconstrained db0 (take 6 opsW) =
     snd (submitApplication ''APP-2025-000042'' 8000 8001 8002
       (snd (setApplicationStatus (Inr Approved) ''APP-2025-000042'' 7000 db4)))"
  by (simp add: run_def opsW_def db4_def db3_def db2_def db1_created create1_def)

lemma run_opsW_ids: "map appId (applications (run unconstrained db0 (take 6 opsW))) = [''a1'']"
  unfolding run_opsW
  by (simp add: db4_eq db3_eq db2_eq db1_def app1_def setApplicationStatus_def
      submitApplication_def Let_def updateWhere_def)

theorem at_most_one_current_stage_witness:
  "applications db0 = [] \<and> timelineStages db0 = []
   \<and> map appId (applications (run unconstrained db0 (take 6 opsW))) = [''a1'']
   \<and> currentCount (run unconstrained db0 (take 6 opsW)) ''a1'' \<le> 1"
proof -
  have h1: "applications db0 = []" and h2: "timelineStages db0 = []"
    by (simp_all add: db0_def emptyDb_def)
  let ?d = "run unconstrained db0 (take 6 opsW)"
  have mem: "hd (applications ?d) \<in> set (applications ?d)" and key: "appId (hd (applications ?d)) = ''a1''"
    using run_opsW_ids by (cases "applications ?d"; simp)+
  from at_most_one_current_stage [OF h1 h2, of unconstrained 6 opsW] mem
  have "currentCount ?d (appId (hd (applications ?d))) \<le> 1"
    by (rule bspec)
  with key h1 h2 run_opsW_ids show ?thesis by simp
qed

subsection \<open>Average processing time\<close>

lemma floor_half_nearest: "\<bar>of_int \<lfloor>x + 1 / 2\<rfloor> - x\<bar> \<le> 1 / 2" for x :: rat
  by linarith

lemma castInt_nearest: "\<bar>of_int (castInt x) - x\<bar> \<le> 1 / 2"
proof (cases "0 \<le> x")
  case True
  then show ?thesis by (simp only: castInt_def if_True floor_half_nearest)
next
  case False
  have "\<bar>of_int (- \<lfloor>- x + 1 / 2\<rfloor>) - x\<bar> = \<bar>of_int \<lfloor>(- x) + 1 / 2\<rfloor> - (- x)\<bar>"
    by (simp add: abs_minus_commute)
  also have "\<dots> \<le> 1 / 2" by (rule floor_half_nearest)
  finally show ?thesis using False by (simp only: castInt_def if_False)
qed

lemma round_div:
  fixes T N :: int
  assumes "0 < N"
  shows "\<lfloor>(of_int T / of_int N :: rat) + 1 / 2\<rfloor> = (2 * T + N) div (2 * N)"
proof -
  have "(of_int T / of_int N :: rat) + 1 / 2 = of_int (2 * T + N) / of_int (2 * N)"
    using assms by (simp add: field_simps)
  then show ?thesis
    by (simp only: floor_divide_of_int_eq)
qed

lemma roundScale_error: "\<bar>roundScale x s - x\<bar> \<le> 1 / (2 * 10 ^ s)"
proof -
  have "roundScale x s - x = (of_int (castInt (x * 10 ^ s)) - x * 10 ^ s) / 10 ^ s"
    by (simp add: roundScale_def diff_divide_distrib)
  then have "\<bar>roundScale x s - x\<bar> = \<bar>of_int (castInt (x * 10 ^ s)) - x * 10 ^ s\<bar> / 10 ^ s"
    by (simp add: abs_divide)
  also have "\<dots> \<le> (1 / 2) / 10 ^ s"
    using castInt_nearest[of "x * 10 ^ s"] by (intro divide_right_mono) simp_all
  finally show ?thesis by simp
qed

lemma roundScale_error6:
  assumes "6 \<le> s"
  shows "\<bar>roundScale x s - x\<bar> \<le> 1 / (2 * 10 ^ 6)"
proof -
  have "(10::rat) ^ 6 \<le> 10 ^ s"
    using assms by (intro power_increasing) simp_all
  then have "1 / (2 * (10::rat) ^ s) \<le> 1 / (2 * 10 ^ 6)"
    by (intro divide_left_mono) simp_all
  with roundScale_error[of x s] show ?thesis by linarith
qed

lemma selectDivScale_ge: "6 \<le> snd a \<Longrightarrow> 6 \<le> selectDivScale a b"
  by (simp add: selectDivScale_def Let_def)

lemma numericDiv_error:
  assumes "6 \<le> snd a"
  shows "6 \<le> snd (numericDiv a b)" and "\<bar>fst (numericDiv a b) - fst a / fst b\<bar> \<le> 1 / (2 * 10 ^ 6)"
  using selectDivScale_ge[OF assms, of b] roundScale_error6
  by (simp_all add: numericDiv_def Let_def)

lemma day_quotient:
  "6 \<le> snd (numericDiv (extractEpoch i) (86400, 0))"
  "\<bar>fst (numericDiv (extractEpoch i) (86400, 0)) - of_int i / 86400000\<bar> \<le> 1 / (2 * 10 ^ 6)"
proof -
  have s: "6 \<le> snd (extractEpoch i)" by (simp add: extractEpoch_def)
  show "6 \<le> snd (numericDiv (extractEpoch i) (86400, 0))"
    by (rule numericDiv_error(1)[OF s])
  have "fst (extractEpoch i) / fst (86400 :: rat, 0 :: nat) = of_int i / 86400000"
    by (simp add: extractEpoch_def)
  then show
    "\<bar>fst (numericDiv (extractEpoch i) (86400, 0)) - of_int i / 86400000\<bar> \<le> 1 / (2 * 10 ^ 6)"
    using numericDiv_error(2)[OF s, of "(86400, 0)"] by (simp only:)
qed

lemma day_quotients_sum:
  "\<bar>sum_list (map (\<lambda>i. fst (numericDiv (extractEpoch i) (86400, 0))) xs)
      - of_int (sum_list xs) / 86400000\<bar> \<le> of_nat (length xs) / (2 * 10 ^ 6)"
proof (induction xs)
  case Nil
  show ?case by simp
next
  case (Cons i xs)
  let ?q = "\<lambda>i. fst (numericDiv (extractEpoch i) (86400, 0))"
  have "sum_list (map ?q (i # xs)) - of_int (sum_list (i # xs)) / 86400000
      = (?q i - of_int i / 86400000)
        + (sum_list (map ?q xs) - of_int (sum_list xs) / 86400000)"
    by (simp add: add_divide_distrib)
  then have "\<bar>sum_list (map ?q (i # xs)) - of_int (sum_list (i # xs)) / 86400000\<bar>
      \<le> \<bar>?q i - of_int i / 86400000\<bar>
        + \<bar>sum_list (map ?q xs) - of_int (sum_list xs) / 86400000\<bar>"
    by (simp only: abs_triangle_ineq)
  also have "\<dots> \<le> 1 / (2 * 10 ^ 6) + of_nat (length xs) / (2 * 10 ^ 6)"
    using day_quotient(2)[of i] Cons.IH by (intro add_mono)
  also have "\<dots> = of_nat (length (i # xs)) / (2 * 10 ^ 6)"
    by (simp add: add_divide_distrib)
  finally show ?case .
qed

lemma fold_max_ge: "(a::nat) \<le> fold max xs a"
proof (induction xs arbitrary: a)
  case Nil
  show ?case by simp
next
  case (Cons y ys)
  have "a \<le> max y a" by simp
  also have "\<dots> \<le> fold max ys (max y a)" by (rule Cons.IH)
  finally show ?case by simp
qed

lemma fold_max_mem: "x \<in> set xs \<Longrightarrow> (x::nat) \<le> fold max xs a"
proof (induction xs arbitrary: a)
  case Nil
  then show ?case by simp
next
  case (Cons y ys)
  show ?case
  proof (cases "x = y")
    case True
    have "x \<le> max y a" using True by simp
    also have "\<dots> \<le> fold max ys (max y a)" by (rule fold_max_ge)
    finally show ?thesis by simp
  next
    case False
    with Cons.prems have "x \<in> set ys" by simp
    then show ?thesis using Cons.IH by simp
  qed
qed

lemma avg_error:
  assumes "xs \<noteq> []"
  shows "\<bar>fst (coalesce (sqlAvg (map (\<lambda>i. numericDiv (extractEpoch i) (86400, 0)) xs)) (0, 0))
      - of_int (sum_list xs) / 86400000 / of_nat (length xs)\<bar> \<le> 1 / 10 ^ 6"
proof -
  let ?qs = "map (\<lambda>i. numericDiv (extractEpoch i) (86400, 0)) xs"
  let ?S = "sum_list (map fst ?qs)"
  let ?sc = "fold max (map snd ?qs) 0"
  let ?n = "of_nat (length xs) :: rat"
  have n: "0 < ?n" using assms by simp
  obtain i where i: "i \<in> set xs" using assms by (cases xs) auto
  have "snd (numericDiv (extractEpoch i) (86400, 0)) \<in> set (map snd ?qs)"
    using i by (simp add: image_iff) blast
  then have "snd (numericDiv (extractEpoch i) (86400, 0)) \<le> ?sc"
    by (rule fold_max_mem)
  with day_quotient(1)[of i] have sc: "6 \<le> ?sc" by linarith
  have avg: "coalesce (sqlAvg ?qs) (0, 0) = numericDiv (?S, ?sc) (?n, 0)"
    using assms by (simp add: sqlAvg_def coalesce_def)
  have "6 \<le> snd (?S, ?sc)" using sc by simp
  from numericDiv_error(2)[OF this, of "(?n, 0)"]
  have e1: "\<bar>fst (numericDiv (?S, ?sc) (?n, 0)) - ?S / ?n\<bar> \<le> 1 / (2 * 10 ^ 6)"
    by simp
  have S: "?S = sum_list (map (\<lambda>i. fst (numericDiv (extractEpoch i) (86400, 0))) xs)"
    by (simp add: comp_def)
  have "\<bar>?S - of_int (sum_list xs) / 86400000\<bar> \<le> ?n / (2 * 10 ^ 6)"
    unfolding S by (rule day_quotients_sum)
  then have "\<bar>?S - of_int (sum_list xs) / 86400000\<bar> / ?n \<le> (?n / (2 * 10 ^ 6)) / ?n"
    using n by (intro divide_right_mono) simp_all
  also have "(?n / (2 * 10 ^ 6)) / ?n = 1 / (2 * 10 ^ 6)"
    using n by simp
  finally have "\<bar>(?S - of_int (sum_list xs) / 86400000) / ?n\<bar> \<le> 1 / (2 * 10 ^ 6)"
    using n by (simp add: abs_divide)
  then have e2: "\<bar>?S / ?n - of_int (sum_list xs) / 86400000 / ?n\<bar> \<le> 1 / (2 * 10 ^ 6)"
    by (simp add: diff_divide_distrib)
  define A where "A = fst (numericDiv (?S, ?sc) (?n, 0))"
  define B where "B = ?S / ?n"
  define C where "C = of_int (sum_list xs) / 86400000 / ?n"
  have "A - C = (A - B) + (B - C)" by simp
  then have "\<bar>A - C\<bar> \<le> \<bar>A - B\<bar> + \<bar>B - C\<bar>"
    by (simp only: abs_triangle_ineq)
  also have "\<dots> \<le> 1 / (2 * 10 ^ 6) + 1 / (2 * 10 ^ 6)"
    using e1 e2 unfolding A_def B_def C_def by (intro add_mono)
  also have "\<dots> = 1 / 10 ^ 6" by simp
  finally show ?thesis unfolding avg A_def C_def .
qed

lemma map_filter_conv:
  "List.map_filter (\<lambda>a. if p a then (case (f a, g a) of (Some s, Some u) \<Rightarrow> Some (u - s) | _ \<Rightarrow> None) else None) xs
   = map (\<lambda>a. case (f a, g a) of (Some s, Some u) \<Rightarrow> u - s | _ \<Rightarrow> (0::int))
       (filter (\<lambda>a. p a \<and> f a \<noteq> None \<and> g a \<noteq> None) xs)"
  by (induction xs) (auto simp: List.map_filter_def split: option.splits)

lemma approvedIntervals_rows:
  "approvedIntervals d =
     map (\<lambda>a. case (submittedAt a, updatedAt a) of (Some s, Some u) \<Rightarrow> u - s | _ \<Rightarrow> 0)
       (filter (\<lambda>a. appStatus a = Approved \<and> submittedAt a \<noteq> None \<and> updatedAt a \<noteq> None)
          (applications d))"
  unfolding approvedIntervals_def by (rule map_filter_conv)

lemma digits_0: "digits 0 = ''0''"
  by code_simp

lemma digits_1: "digits 1 = ''1''"
  by code_simp

lemma castInt_0: "castInt 0 = 0"
  by code_simp

text \<open>
  Claim C9, amended. The statistic is taken over the applications whose status is
  approved and whose \<^verbatim>\<open>submittedAt\<close> and \<^verbatim>\<open>updatedAt\<close> are set. When there is none it is 0
  and reads "0 days". Otherwise it is the mean of \<^verbatim>\<open>updatedAt - submittedAt\<close> in days
  rounded to an integer, not floored: it differs from the exact mean by at most half a
  day and the millionth of a day that the store's decimal arithmetic may lose.
\<close>

theorem avg_processing_days:
  "let rows = filter (\<lambda>a. appStatus a = Approved \<and> submittedAt a \<noteq> None \<and> updatedAt a \<noteq> None)
                (applications d);
       elapsed = map (\<lambda>a. case (submittedAt a, updatedAt a) of
                             (Some s, Some u) \<Rightarrow> u - s | _ \<Rightarrow> 0) rows
   in (rows = [] \<longrightarrow> avgDays d = 0 \<and> avgProcessingTime d = ''0 days'')
      \<and> (rows \<noteq> [] \<longrightarrow>
           \<bar>of_int (avgDays d)
              - (of_int (sum_list elapsed) / 86400000 / of_nat (length rows) :: rat)\<bar>
             \<le> 1 / 2 + 1 / 10 ^ 6)
      \<and> avgProcessingTime d = showNumber (avgDays d) @ '' days''"
proof -
  define rows where "rows = filter (\<lambda>a. appStatus a = Approved \<and> submittedAt a \<noteq> None
      \<and> updatedAt a \<noteq> None) (applications d)"
  define elapsed where "elapsed = map (\<lambda>a. case (submittedAt a, updatedAt a) of
                             (Some s, Some u) \<Rightarrow> u - s | _ \<Rightarrow> (0::int)) rows"
  have sel: "approvedIntervals d = elapsed"
    unfolding elapsed_def rows_def by (rule approvedIntervals_rows)
  have len: "length elapsed = length rows" by (simp add: elapsed_def)
  have c1: "avgDays d = 0 \<and> avgProcessingTime d = ''0 days''" if "rows = []"
  proof -
    from that have "approvedIntervals d = []" by (simp add: sel elapsed_def)
    then have z: "avgDays d = 0"
      by (simp add: avgDays_def sqlAvg_def coalesce_def castInt_0)
    then show ?thesis
      using digits_0 by (simp add: avgProcessingTime_def showNumber_def)
  qed
  have c2: "\<bar>of_int (avgDays d)
        - (of_int (sum_list elapsed) / 86400000 / of_nat (length rows) :: rat)\<bar>
      \<le> 1 / 2 + 1 / 10 ^ 6" if "rows \<noteq> []"
  proof -
    from that have ne: "elapsed \<noteq> []" by (simp add: elapsed_def)
    define m :: rat where
      "m = fst (coalesce (sqlAvg (map (\<lambda>i. numericDiv (extractEpoch i) (86400, 0)) elapsed)) (0, 0))"
    define x :: rat where "x = of_int (sum_list elapsed) / 86400000 / of_nat (length rows)"
    have k: "avgDays d = castInt m" by (simp add: avgDays_def sel m_def)
    have e1: "\<bar>m - x\<bar> \<le> 1 / 10 ^ 6"
      unfolding m_def x_def len[symmetric] by (rule avg_error[OF ne])
    have e2: "\<bar>of_int (castInt m) - m\<bar> \<le> 1 / 2" by (rule castInt_nearest)
    have "of_int (castInt m) - x = (of_int (castInt m) - m) + (m - x)" by simp
    then have "\<bar>of_int (castInt m) - x\<bar> \<le> \<bar>of_int (castInt m) - m\<bar> + \<bar>m - x\<bar>"
      by (simp only: abs_triangle_ineq)
    also have "\<dots> \<le> 1 / 2 + 1 / 10 ^ 6"
      using e1 e2 by (intro add_mono)
    finally show ?thesis unfolding k x_def .
  qed
  have c3: "avgProcessingTime d = showNumber (avgDays d) @ '' days''"
    by (simp add: avgProcessingTime_def)
  show ?thesis
    unfolding Let_def rows_def[symmetric] elapsed_def[symmetric] using c1 c2 c3 by blast
qed

lemma dbQuick_applications:
  "applications dbQuick =
     [app1\<lparr>appStatus := Approved, submittedAt := Some 2000, updatedAt := Some 64802000\<rparr>]"
  by (simp add: dbQuick_def db2_eq db1_def app1_def setApplicationStatus_def Let_def
      updateWhere_def)

lemma dbQuick_intervals: "approvedIntervals dbQuick = [64800000]"
  by (simp add: approvedIntervals_rows dbQuick_applications app1_def)

lemma avg_18_hours:
  "castInt (fst (coalesce
      (sqlAvg (map (\<lambda>i. numericDiv (extractEpoch i) (86400, 0)) [64800000])) (0, 0))) = 1"
  by code_simp

lemma avgDays_dbQuick: "avgDays dbQuick = 1"
  by (simp only: avgDays_def dbQuick_intervals avg_18_hours)

text \<open>
  The decimal arithmetic shows at a mean of exactly one day and a half: the two
  quotients are rounded at scale 20 and at scale 16, their mean is
  1.49999999999999998334, and the statistic is 1.
\<close>

lemma avg_1_and_71_hours:
  "sqlAvg (map (\<lambda>i. numericDiv (extractEpoch i) (86400, 0)) [3600000, 255600000])
     = Some (149999999999999998334 / 10 ^ 20, 20)"
  by code_simp

lemma avgDays_dbTie: "approvedIntervals dbTie = [3600000, 255600000] \<and> avgDays dbTie = 1"
proof -
  have i: "approvedIntervals dbTie = [3600000, 255600000]"
    by (simp add: approvedIntervals_rows dbTie_def db1_def app1_def)
  have "castInt (149999999999999998334 / 10 ^ 20) = 1" by code_simp
  then have "avgDays dbTie = 1"
    by (simp only: avgDays_def i avg_1_and_71_hours coalesce_def option.case fst_conv)
  with i show ?thesis by simp
qed

theorem avg_processing_days_witness:
  "filter (\<lambda>a. appStatus a = Approved \<and> submittedAt a \<noteq> None \<and> updatedAt a \<noteq> None)
      (applications db1) = []
   \<and> avgDays db1 = 0 \<and> avgProcessingTime db1 = ''0 days''
   \<and> filter (\<lambda>a. appStatus a = Approved \<and> submittedAt a \<noteq> None \<and> updatedAt a \<noteq> None)
        (applications dbQuick) \<noteq> []
   \<and> \<bar>of_int (avgDays dbQuick) - (3 / 4 :: rat)\<bar> \<le> 1 / 2 + 1 / 10 ^ 6
   \<and> avgProcessingTime dbQuick = showNumber (avgDays dbQuick) @ '' days''"
proof -
  have h1: "filter (\<lambda>a. appStatus a = Approved \<and> submittedAt a \<noteq> None \<and> updatedAt a \<noteq> None)
      (applications db1) = []"
    by (simp add: db1_def app1_def)
  have h2: "filter (\<lambda>a. appStatus a = Approved \<and> submittedAt a \<noteq> None \<and> updatedAt a \<noteq> None)
      (applications dbQuick)
      = [app1\<lparr>appStatus := Approved, submittedAt := Some 2000, updatedAt := Some 64802000\<rparr>]"
    by (simp add: dbQuick_applications)
  from avg_processing_days [of db1] h1
  have c1: "avgDays db1 = 0 \<and> avgProcessingTime db1 = ''0 days''"
    by (simp add: Let_def)
  from avg_processing_days [of dbQuick]
  have c2: "\<bar>of_int (avgDays dbQuick) - (3 / 4 :: rat)\<bar> \<le> 1 / 2 + 1 / 10 ^ 6
      \<and> avgProcessingTime dbQuick = showNumber (avgDays dbQuick) @ '' days''"
    unfolding Let_def h2 by simp
  from h1 h2 c1 c2 show ?thesis by simp
qed

text \<open>
  The claim as stated fails. In \<open>dbQuick\<close> the only approved application took eighteen
  hours, three quarters of a day: floored that is 0 days, the statistic reads "1 days".
\<close>

theorem avg_processing_floor_counterexample:
  "approvedIntervals dbQuick = [64800000] \<and> avgDays dbQuick = 1
   \<and> avgProcessingTime dbQuick = ''1 days'' \<and> spec_avgProcessingDays dbQuick = 0"
proof -
  have b: "avgProcessingTime dbQuick = ''1 days''"
    using digits_1 by (simp add: avgProcessingTime_def avgDays_dbQuick showNumber_def)
  have "\<lfloor>(3::rat) / 4\<rfloor> = 0" by code_simp
  then have c: "spec_avgProcessingDays dbQuick = 0"
    by (simp add: spec_avgProcessingDays_def dbQuick_intervals)
  from avgDays_dbQuick b c dbQuick_intervals show ?thesis by simp
qed

subsection \<open>Review progress\<close>

lemma ilog2_bounds:
  "1 \<le> n \<Longrightarrow> 0 \<le> ilog2 n \<and> 2 ^ nat (ilog2 n) \<le> n \<and> n < 2 * 2 ^ nat (ilog2 n)"
proof (induction n rule: ilog2.induct)
  case (1 n)
  show ?case
  proof (cases "n \<le> 1")
    case True
    with "1.prems" have "n = 1" by simp
    then show ?thesis by (simp add: ilog2.simps)
  next
    case False
    then have h: "1 \<le> n div 2" by simp
    let ?k = "ilog2 (n div 2)"
    from "1.IH"[OF False h]
    have k: "0 \<le> ?k" "2 ^ nat ?k \<le> n div 2" "n div 2 < 2 * 2 ^ nat ?k"
      by simp_all
    have e: "ilog2 n = 1 + ?k"
      using False by (subst ilog2.simps) simp
    have n: "nat (1 + ?k) = Suc (nat ?k)"
      using k(1) by simp
    have "2 * 2 ^ nat ?k \<le> n" using k(2) by linarith
    moreover have "n < 2 * (2 * 2 ^ nat ?k)" using k(3) by linarith
    ultimately show ?thesis using k(1) by (simp add: e n)
  qed
qed

lemma ilog2_powi:
  assumes "1 \<le> n"
  shows "(2::rat) powi ilog2 n \<le> of_int n" and "of_int n < (2::rat) powi (ilog2 n + 1)"
proof -
  from ilog2_bounds[OF assms]
  have k: "0 \<le> ilog2 n" "2 ^ nat (ilog2 n) \<le> n" "n < 2 * 2 ^ nat (ilog2 n)"
    by simp_all
  have p: "(2::rat) powi ilog2 n = of_int (2 ^ nat (ilog2 n))"
    using k(1) by (simp add: power_int_def)
  show "(2::rat) powi ilog2 n \<le> of_int n"
    unfolding p using k(2) by (simp only: of_int_le_iff)
  have "(2::rat) powi (ilog2 n + 1) = of_int (2 * 2 ^ nat (ilog2 n))"
    using k(1) by (simp add: power_int_add p)
  then show "of_int n < (2::rat) powi (ilog2 n + 1)"
    using k(3) by (simp only: of_int_less_iff)
qed

lemma powi2_diff: "(2::rat) powi (a - b) = 2 powi a / 2 powi b"
  by (simp add: power_int_diff)

lemma expo_bounds:
  assumes "0 < x"
  shows "2 powi expo x \<le> x" and "x < 2 powi (expo x + 1)"
proof -
  obtain p q where pq: "quotient_of x = (p, q)" by force
  then have q: "0 < q" and x: "x = of_int p / of_int q"
    by (simp_all add: quotient_of_denom_pos quotient_of_div)
  from assms x q have p: "0 < p"
    by (simp add: zero_less_divide_iff)
  let ?d = "ilog2 p - ilog2 q"
  have e: "expo x = (if 2 powi ?d \<le> x then ?d else ?d - 1)"
    by (simp add: expo_def pq Let_def)
  have P: "(2::rat) powi ilog2 p \<le> of_int p" "of_int p < (2::rat) powi (ilog2 p + 1)"
    using ilog2_powi[of p] p by simp_all
  have Q: "(2::rat) powi ilog2 q \<le> of_int q" "of_int q < (2::rat) powi (ilog2 q + 1)"
    using ilog2_powi[of q] q by simp_all
  have qpos: "(0::rat) < of_int q" using q by simp
  have lo: "(2::rat) powi (?d - 1) \<le> x"
  proof -
    have "?d - 1 = ilog2 p - (ilog2 q + 1)" by simp
    then have "(2::rat) powi (?d - 1) = 2 powi ilog2 p / 2 powi (ilog2 q + 1)"
      by (simp only: powi2_diff)
    also have "\<dots> \<le> of_int p / 2 powi (ilog2 q + 1)"
      using P(1) by (simp add: divide_right_mono)
    also have "\<dots> \<le> of_int p / of_int q"
      using Q(2) qpos p by (simp add: frac_le)
    finally show ?thesis by (simp add: x)
  qed
  have hi: "x < (2::rat) powi (?d + 1)"
  proof -
    have "x = of_int p / of_int q" by (rule x)
    also have "\<dots> < 2 powi (ilog2 p + 1) / of_int q"
      using P(2) qpos by (simp add: divide_strict_right_mono)
    also have "\<dots> \<le> 2 powi (ilog2 p + 1) / 2 powi ilog2 q"
      using Q(1) by (simp add: frac_le)
    also have "\<dots> = 2 powi (ilog2 p + 1 - ilog2 q)"
      by (simp only: powi2_diff)
    also have "ilog2 p + 1 - ilog2 q = ?d + 1" by simp
    finally show ?thesis .
  qed
  show "2 powi expo x \<le> x"
    using lo by (simp add: e)
  show "x < 2 powi (expo x + 1)"
    using hi by (auto simp add: e not_le)
qed

lemma roundEven_near: "\<bar>of_int (roundEven y) - y\<bar> \<le> 1 / 2"
proof -
  have f: "of_int \<lfloor>y\<rfloor> \<le> y" "y < of_int \<lfloor>y\<rfloor> + 1"
    by linarith+
  show ?thesis
    using f by (auto simp: roundEven_def Let_def abs_le_iff)
qed

lemma roundEven_nonneg: "0 \<le> y \<Longrightarrow> 0 \<le> roundEven y"
  by (auto simp: roundEven_def Let_def intro: add_nonneg_nonneg)

lemma fl_nonneg: "0 \<le> x \<Longrightarrow> 0 \<le> fl x"
  by (auto simp: fl_def Let_def roundEven_nonneg)

lemma fl_error:
  assumes "0 \<le> x"
  shows "\<bar>fl x - x\<bar> \<le> x / 2 ^ 53"
proof (cases "x = 0")
  case True
  then show ?thesis by (simp add: fl_def)
next
  case False
  with assms have pos: "0 < x" by simp
  define u :: rat where "u = 2 powi (expo x - 52)"
  have upos: "0 < u" by (simp add: u_def)
  have fl: "fl x = of_int (roundEven (x / u)) * u"
    using pos by (simp add: fl_def Let_def u_def)
  have "u = 2 powi expo x / 2 ^ 52"
    by (simp add: u_def powi2_diff)
  also have "\<dots> \<le> x / 2 ^ 52"
    using expo_bounds(1)[OF pos] by (simp add: divide_right_mono)
  finally have ule: "u \<le> x / 2 ^ 52" .
  have "fl x - x = (of_int (roundEven (x / u)) - x / u) * u"
    using upos by (simp add: fl left_diff_distrib)
  then have "\<bar>fl x - x\<bar> = \<bar>of_int (roundEven (x / u)) - x / u\<bar> * u"
    using upos by (simp add: abs_mult)
  also have "\<dots> \<le> (1 / 2) * u"
    using roundEven_near[of "x / u"] upos by (intro mult_right_mono) simp_all
  also have "\<dots> \<le> (1 / 2) * (x / 2 ^ 52)"
    using ule by simp
  also have "\<dots> = x / 2 ^ 53"
    by simp
  finally show ?thesis .
qed

lemma progress_error:
  assumes "n \<le> t" and "0 < t"
  shows "\<bar>jsMul (jsDiv (of_nat n) (of_nat t)) 100 - 100 * of_nat n / of_nat t\<bar> \<le> 300 / 2 ^ 53"
proof -
  define x :: rat where "x = of_nat n / of_nat t"
  have x0: "0 \<le> x" by (simp add: x_def)
  have x1: "x \<le> 1" using assms by (simp add: x_def)
  define q where "q = fl x"
  define p where "p = fl (q * 100)"
  have q0: "0 \<le> q" unfolding q_def using x0 by (rule fl_nonneg)
  have e1: "\<bar>q - x\<bar> \<le> x / 2 ^ 53" unfolding q_def using x0 by (rule fl_error)
  have "x / 2 ^ 53 \<le> x" using x0 by (simp add: field_simps)
  with e1 have qle: "q \<le> 2 * x" by linarith
  have e2: "\<bar>p - q * 100\<bar> \<le> q * 100 / 2 ^ 53"
    unfolding p_def using q0 by (intro fl_error) simp
  have "q * 100 / 2 ^ 53 \<le> 200 * x / 2 ^ 53"
    using qle by (simp add: divide_right_mono)
  with e2 have e3: "\<bar>p - q * 100\<bar> \<le> 200 * x / 2 ^ 53" by linarith
  have "p - 100 * x = (p - q * 100) + 100 * (q - x)" by simp
  then have "\<bar>p - 100 * x\<bar> \<le> \<bar>p - q * 100\<bar> + \<bar>100 * (q - x)\<bar>"
    by (simp only: abs_triangle_ineq)
  also have "\<bar>100 * (q - x)\<bar> = 100 * \<bar>q - x\<bar>"
    by (simp only: abs_mult abs_numeral)
  finally have "\<bar>p - 100 * x\<bar> \<le> \<bar>p - q * 100\<bar> + 100 * \<bar>q - x\<bar>" .
  also have "\<dots> \<le> 200 * x / 2 ^ 53 + 100 * (x / 2 ^ 53)"
    using e1 e3 by (intro add_mono mult_left_mono) simp_all
  also have "\<dots> = 300 * x / 2 ^ 53" by simp
  also have "\<dots> \<le> 300 / 2 ^ 53" using x1 by (simp add: divide_right_mono)
  finally have "\<bar>p - 100 * x\<bar> \<le> 300 / 2 ^ 53" .
  then show ?thesis
    by (simp add: p_def q_def x_def jsMul_def jsDiv_def)
qed

lemma mathRound_near:
  fixes A B :: int
  assumes B: "0 < B" "B \<le> 2 ^ 33"
    and near: "\<bar>p - (of_int A / of_int B - 1 / 2)\<bar> \<le> 300 / 2 ^ 53"
  shows "A div B - 1 \<le> mathRound p" and "mathRound p \<le> A div B"
    and "A mod B \<noteq> 0 \<Longrightarrow> mathRound p = A div B"
proof -
  define m where "m = A div B"
  define r where "r = A mod B"
  have A: "A = m * B + r" by (simp add: m_def r_def)
  have r: "0 \<le> r" "r \<le> B - 1" using B(1) by (simp_all add: r_def)
  have Bpos: "(0::rat) < of_int B" using B(1) by simp
  have quot: "(of_int A / of_int B :: rat) = of_int m + of_int r / of_int B"
    using Bpos by (simp add: A field_simps)
  have "(of_int B :: rat) \<le> 2 ^ 33"
    using B(2) by (metis of_int_le_iff of_int_numeral of_int_power)
  then have "(1::rat) / 2 ^ 33 \<le> 1 / of_int B"
    using Bpos by (simp add: frac_le)
  moreover have "(300::rat) / 2 ^ 53 < 1 / 2 ^ 33" by simp
  ultimately have eps: "(300::rat) / 2 ^ 53 < 1 / of_int B" by linarith
  have invB: "(1::rat) / of_int B \<le> 1" using B(1) Bpos by (simp add: field_simps)
  have rlo: "(0::rat) \<le> of_int r / of_int B" using r(1) Bpos by simp
  have "(of_int r :: rat) \<le> of_int B - 1"
    using r(2) by (metis of_int_le_iff of_int_diff of_int_1)
  then have "(of_int r / of_int B :: rat) \<le> (of_int B - 1) / of_int B"
    using Bpos by (simp add: divide_right_mono)
  also have "\<dots> = 1 - 1 / of_int B" using Bpos by (simp add: field_simps)
  finally have rhi: "(of_int r / of_int B :: rat) \<le> 1 - 1 / of_int B" .
  define e :: rat where "e = 300 / 2 ^ 53"
  define s where "s = p + 1 / 2"
  define c :: rat where "c = of_int m + of_int r / of_int B"
  have "s - c = p - (of_int A / of_int B - 1 / 2)"
    by (simp add: s_def c_def quot)
  with near have "\<bar>s - c\<bar> \<le> e"
    by (simp only: e_def)
  then have s: "s - c \<le> e" "c - s \<le> e"
    by (simp_all add: abs_le_iff)
  from eps have eps': "e < 1 / of_int B" by (simp only: e_def)
  have clo: "of_int m \<le> c" using rlo by (simp add: c_def)
  have chi: "c \<le> of_int m + 1 - 1 / of_int B" using rhi by (simp add: c_def)
  have lo: "of_int (m - 1) \<le> s"
    using s clo eps' invB by linarith
  have hi: "s < of_int m + 1"
    using s chi eps' by linarith
  have mr: "mathRound p = \<lfloor>s\<rfloor>" by (simp add: mathRound_def s_def)
  show "A div B - 1 \<le> mathRound p"
    using lo unfolding mr m_def[symmetric] by (simp only: le_floor_iff)
  from hi have "s < of_int (m + 1)" by simp
  then have "\<lfloor>s\<rfloor> < m + 1"
    by (simp only: floor_less_iff)
  then show "mathRound p \<le> A div B"
    unfolding mr m_def[symmetric] by simp
  assume "A mod B \<noteq> 0"
  then have "1 \<le> r" using r(1) by (simp add: r_def)
  then have "(1::rat) \<le> of_int r"
    by (metis of_int_le_iff of_int_1)
  then have "(1::rat) / of_int B \<le> of_int r / of_int B"
    using Bpos by (simp add: divide_right_mono)
  then have "of_int m + 1 / of_int B \<le> c" by (simp add: c_def)
  then have "of_int m \<le> s"
    using s eps' by linarith
  with hi have "\<lfloor>s\<rfloor> = m"
    by (intro floor_unique) simp_all
  then show "mathRound p = A div B"
    unfolding mr m_def .
qed

lemma disjoint_counts:
  assumes "\<And>x. \<not> (P x \<and> Q x)"
  shows "length (filter P xs) + length (filter Q xs) \<le> length xs"
  using assms by (induction xs) auto

lemma spec_progress_div:
  assumes "0 < t"
  shows "spec_verificationProgress a r t = (200 * int (a + r) + int t) div (2 * int t)"
proof -
  have "round (100 * of_nat (a + r) / of_nat t :: rat)
      = \<lfloor>(of_int (100 * int (a + r)) / of_int (int t) :: rat) + 1 / 2\<rfloor>"
    by (simp add: round_def)
  also have "\<dots> = (2 * (100 * int (a + r)) + int t) div (2 * int t)"
    using assms by (intro round_div) simp
  finally show ?thesis using assms by (simp add: spec_verificationProgress_def)
qed

lemma progress_bounds:
  assumes "n \<le> t" and "0 < t" and "t < 2 ^ 32"
  shows "(200 * int n + int t) div (2 * int t) - 1
           \<le> mathRound (jsMul (jsDiv (of_nat n) (of_nat t)) 100)"
    and "mathRound (jsMul (jsDiv (of_nat n) (of_nat t)) 100)
           \<le> (200 * int n + int t) div (2 * int t)"
    and "(200 * int n + int t) mod (2 * int t) \<noteq> 0 \<Longrightarrow>
         mathRound (jsMul (jsDiv (of_nat n) (of_nat t)) 100)
           = (200 * int n + int t) div (2 * int t)"
proof -
  let ?A = "200 * int n + int t" and ?B = "2 * int t"
  let ?p = "jsMul (jsDiv (of_nat n) (of_nat t)) 100"
  have B: "0 < ?B" "?B \<le> 2 ^ 33" using assms(2,3) by simp_all
  have "(of_int ?A / of_int ?B :: rat) - 1 / 2 = 100 * of_nat n / of_nat t"
    using assms(2) by (simp add: field_simps)
  with progress_error[OF assms(1,2)]
  have near: "\<bar>?p - (of_int ?A / of_int ?B - 1 / 2)\<bar> \<le> 300 / 2 ^ 53"
    by simp
  show "?A div ?B - 1 \<le> mathRound ?p"
    by (rule mathRound_near(1)[OF B near])
  show "mathRound ?p \<le> ?A div ?B"
    by (rule mathRound_near(2)[OF B near])
  show "mathRound ?p = ?A div ?B" if "?A mod ?B \<noteq> 0"
    by (rule mathRound_near(3)[OF B near that])
qed

lemma progress_4_of_5: "mathRound (jsMul (jsDiv 4 5) 100) = 80"
  by code_simp

lemma progress_23_of_40: "mathRound (jsMul (jsDiv 23 40) 100) = 57"
  by code_simp

lemma progress_1_of_8: "mathRound (jsMul (jsDiv 1 8) 100) = 13"
  by code_simp

text \<open>
  Claim C5, amended. The entry of an application holds the documents of that application
  and the numbers of them whose status is approved, rejected and pending. For an
  application without documents the progress is 0. Otherwise (an array holds fewer than
  \<open>2 ^ 32\<close> documents) the progress is the exact percentage
  \<open>100 * (approved + rejected) / total\<close> rounded to the nearest integer, or that minus one;
  it is the rounded percentage whenever the exact percentage is not halfway between two
  integers, that is, whenever \<open>200 * (approved + rejected) + total\<close> is not a multiple of
  \<open>2 * total\<close>. An application with five documents of which three are approved, one
  rejected and one pending has progress 80 and the counts 3, 1 and 1.
\<close>

theorem tracker_progress:
  "let docs = filter (\<lambda>x. docApplicationId x = appId app) (documents d);
       a = length (filter (\<lambda>x. docStatus x = ''approved'') docs);
       r = length (filter (\<lambda>x. docStatus x = ''rejected'') docs);
       p = length (filter (\<lambda>x. docStatus x = ''pending'') docs);
       t = length docs;
       e = applicationWithDetails d app
   in tApplication e = app \<and> tDocuments e = docs
      \<and> tApprovedDocs e = a \<and> tRejectedDocs e = r \<and> tPendingDocs e = p
      \<and> (t = 0 \<longrightarrow> tEvaluationProgress e = 0)
      \<and> (0 < t \<and> t < 2 ^ 32 \<longrightarrow>
           (tEvaluationProgress e = spec_verificationProgress a r t
            \<or> tEvaluationProgress e = spec_verificationProgress a r t - 1)
           \<and> ((200 * int (a + r) + int t) mod (2 * int t) \<noteq> 0 \<longrightarrow>
                tEvaluationProgress e = spec_verificationProgress a r t))
      \<and> (t = 5 \<and> a = 3 \<and> r = 1 \<and> p = 1 \<longrightarrow>
           tEvaluationProgress e = 80 \<and> tApprovedDocs e = 3 \<and> tRejectedDocs e = 1
           \<and> tPendingDocs e = 1)"
proof -
  define docs where "docs = filter (\<lambda>x. docApplicationId x = appId app) (documents d)"
  define a where "a = length (filter (\<lambda>x. docStatus x = ''approved'') docs)"
  define r where "r = length (filter (\<lambda>x. docStatus x = ''rejected'') docs)"
  define p where "p = length (filter (\<lambda>x. docStatus x = ''pending'') docs)"
  define t where "t = length docs"
  define e where "e = applicationWithDetails d app"
  define g where "g = tEvaluationProgress e"
  have sel: "tApplication e = app" "tDocuments e = docs" "tApprovedDocs e = a"
    "tRejectedDocs e = r" "tPendingDocs e = p"
    by (simp_all add: e_def applicationWithDetails_def Let_def docs_def a_def r_def p_def)
  have g: "g = (if t > 0 then mathRound (jsMul (jsDiv (of_nat (a + r)) (of_nat t)) 100) else 0)"
    by (simp add: g_def e_def applicationWithDetails_def Let_def docs_def a_def r_def t_def)
  have le: "a + r \<le> t"
    unfolding a_def r_def t_def by (rule disjoint_counts) auto
  have c1: "t = 0 \<longrightarrow> g = 0"
    by (simp add: g)
  have c2: "(g = spec_verificationProgress a r t \<or> g = spec_verificationProgress a r t - 1)
      \<and> ((200 * int (a + r) + int t) mod (2 * int t) \<noteq> 0 \<longrightarrow> g = spec_verificationProgress a r t)"
    if t: "0 < t" and "t < 2 ^ 32"
  proof -
    note b = progress_bounds[OF le t that(2)]
    have g': "g = mathRound (jsMul (jsDiv (of_nat (a + r)) (of_nat t)) 100)"
      using t by (simp add: g)
    show ?thesis
      unfolding spec_progress_div[OF t] g' using b by linarith
  qed
  have c3: "t = 5 \<and> a = 3 \<and> r = 1 \<and> p = 1 \<longrightarrow>
      g = 80 \<and> tApprovedDocs e = 3 \<and> tRejectedDocs e = 1 \<and> tPendingDocs e = 1"
    by (simp add: g progress_4_of_5 sel)
  show ?thesis
    unfolding Let_def docs_def[symmetric] a_def[symmetric] r_def[symmetric] p_def[symmetric]
      t_def[symmetric] e_def[symmetric] g_def[symmetric]
    using sel c1 c2 c3 by blast
qed

lemma docs_dbDocs5:
  "length (documents dbDocs5) = 6"
  "filter (\<lambda>x. docApplicationId x = appId app1) (documents dbDocs5)
     = [mkDoc ''approved'', mkDoc ''approved'', mkDoc ''pending'', mkDoc ''approved'',
        mkDoc ''rejected'']"
  by (simp_all add: dbDocs5_def db1_def app1_def mkDoc_def)

lemma details_dbDocs40:
  "length (tDocuments (applicationWithDetails dbDocs40 app1)) = 40"
  "tApprovedDocs (applicationWithDetails dbDocs40 app1) = 23"
  "tRejectedDocs (applicationWithDetails dbDocs40 app1) = 0"
  "tPendingDocs (applicationWithDetails dbDocs40 app1) = 17"
  "tEvaluationProgress (applicationWithDetails dbDocs40 app1) = mathRound (jsMul (jsDiv 23 40) 100)"
  by (simp_all add: applicationWithDetails_def Let_def dbDocs40_def db1_def app1_def mkDoc_def
      filter_replicate)

lemma details_dbDocs8:
  "length (tDocuments (applicationWithDetails dbDocs8 app1)) = 8"
  "tApprovedDocs (applicationWithDetails dbDocs8 app1) = 1"
  "tRejectedDocs (applicationWithDetails dbDocs8 app1) = 0"
  "tEvaluationProgress (applicationWithDetails dbDocs8 app1) = mathRound (jsMul (jsDiv 1 8) 100)"
  by (simp_all add: applicationWithDetails_def Let_def dbDocs8_def db1_def app1_def mkDoc_def
      filter_replicate)

theorem tracker_progress_witness:
  "filter (\<lambda>x. docApplicationId x = appId app1) (documents db1) = []
   \<and> tEvaluationProgress (applicationWithDetails db1 app1) = 0
   \<and> length (documents dbDocs5) = 6
   \<and> length (filter (\<lambda>x. docApplicationId x = appId app1) (documents dbDocs5)) = 5
   \<and> length (filter (\<lambda>x. docStatus x = ''approved'')
        (filter (\<lambda>x. docApplicationId x = appId app1) (documents dbDocs5))) = 3
   \<and> length (filter (\<lambda>x. docStatus x = ''rejected'')
        (filter (\<lambda>x. docApplicationId x = appId app1) (documents dbDocs5))) = 1
   \<and> length (filter (\<lambda>x. docStatus x = ''pending'')
        (filter (\<lambda>x. docApplicationId x = appId app1) (documents dbDocs5))) = 1
   \<and> tEvaluationProgress (applicationWithDetails dbDocs5 app1) = 80
   \<and> tApprovedDocs (applicationWithDetails dbDocs5 app1) = 3
   \<and> tRejectedDocs (applicationWithDetails dbDocs5 app1) = 1
   \<and> tPendingDocs (applicationWithDetails dbDocs5 app1) = 1
   \<and> tEvaluationProgress (applicationWithDetails dbDocs5 app1) = spec_verificationProgress 3 1 5"
proof -
  have h0: "filter (\<lambda>x. docApplicationId x = appId app1) (documents db1) = []"
    by (simp add: db1_def db0_def emptyDb_def)
  have h1: "length (filter (\<lambda>x. docApplicationId x = appId app1) (documents dbDocs5)) = 5"
    "length (filter (\<lambda>x. docStatus x = ''approved'')
        (filter (\<lambda>x. docApplicationId x = appId app1) (documents dbDocs5))) = 3"
    "length (filter (\<lambda>x. docStatus x = ''rejected'')
        (filter (\<lambda>x. docApplicationId x = appId app1) (documents dbDocs5))) = 1"
    "length (filter (\<lambda>x. docStatus x = ''pending'')
        (filter (\<lambda>x. docApplicationId x = appId app1) (documents dbDocs5))) = 1"
    by (simp_all add: docs_dbDocs5(2) mkDoc_def)
  from tracker_progress [where d = db1 and app = app1]
  have c0: "tEvaluationProgress (applicationWithDetails db1 app1) = 0"
    unfolding Let_def h0 by simp
  from tracker_progress [where d = dbDocs5 and app = app1]
  have c1: "tEvaluationProgress (applicationWithDetails dbDocs5 app1) = 80
      \<and> tApprovedDocs (applicationWithDetails dbDocs5 app1) = 3
      \<and> tRejectedDocs (applicationWithDetails dbDocs5 app1) = 1
      \<and> tPendingDocs (applicationWithDetails dbDocs5 app1) = 1"
    unfolding Let_def h1 by simp
  from tracker_progress [where d = dbDocs5 and app = app1]
  have c2: "tEvaluationProgress (applicationWithDetails dbDocs5 app1)
      = spec_verificationProgress 3 1 5"
    unfolding Let_def h1 by simp
  from h0 c0 docs_dbDocs5(1) h1 c1 c2 show ?thesis by simp
qed

text \<open>
  The claim as stated fails on a percentage that is halfway between two integers. With
  23 of 40 documents reviewed the exact percentage is 57.5, which rounds to 58; the double
  \<^verbatim>\<open>23 / 40\<close> times 100 is just below 57.5 and the handler answers 57. (Were \<open>round\<close> read
  as rounding a half to the even neighbour, one of eight documents would do: 12.5 would
  round to 12, and the handler answers 13.)
\<close>

theorem tracker_progress_counterexample:
  "length (tDocuments (applicationWithDetails dbDocs40 app1)) = 40
   \<and> tApprovedDocs (applicationWithDetails dbDocs40 app1) = 23
   \<and> tRejectedDocs (applicationWithDetails dbDocs40 app1) = 0
   \<and> tPendingDocs (applicationWithDetails dbDocs40 app1) = 17
   \<and> tEvaluationProgress (applicationWithDetails dbDocs40 app1) = 57
   \<and> spec_verificationProgress 23 0 40 = 58
   \<and> length (tDocuments (applicationWithDetails dbDocs8 app1)) = 8
   \<and> tApprovedDocs (applicationWithDetails dbDocs8 app1) = 1
   \<and> tRejectedDocs (applicationWithDetails dbDocs8 app1) = 0
   \<and> tEvaluationProgress (applicationWithDetails dbDocs8 app1) = 13
   \<and> roundEven (100 * 1 / 8) = 12"
proof -
  have s: "spec_verificationProgress 23 0 40 = 58"
    by (simp add: spec_progress_div)
  have e: "roundEven (100 * 1 / 8) = 12"
    by code_simp
  show ?thesis
    using s e by (simp add: details_dbDocs40 details_dbDocs8 progress_23_of_40 progress_1_of_8)
qed

end
